theory Spec2Isabelle
  imports Main
begin

section \<open>Strings and remote paths\<close>

text \<open>
  Python's \<^verbatim>\<open>s.rstrip('/')\<close> and \<^verbatim>\<open>s.split('/')\<close> on strings.
  \<^verbatim>\<open>''.split('/')\<close> is \<^verbatim>\<open>['']\<close>, \<^verbatim>\<open>'/a'.split('/')\<close> is \<^verbatim>\<open>['', 'a']\<close>.
\<close>

definition rstrip_slash :: "string \<Rightarrow> string" where
  "rstrip_slash s = rev (dropWhile (\<lambda>c. c = CHR ''/'') (rev s))"

fun split_slash :: "string \<Rightarrow> string list" where
  "split_slash [] = [[]]"
| "split_slash (c # cs) =
     (if c = CHR ''/'' then [] # split_slash cs
      else (case split_slash cs of [] \<Rightarrow> [[c]] | w # ws \<Rightarrow> (c # w) # ws))"

section \<open>Exceptions, file contents, the local tree\<close>

datatype exn =
    FileNotFoundError
  | NotADirectoryError
  | IOError
  | OSError
  | CalledProcessError int string
  | AuthenticationException
  | SSHException

type_synonym bytes = string

text \<open>
  The local directory tree that \<^verbatim>\<open>os.listdir\<close> and \<^verbatim>\<open>os.path.isdir\<close> walk:
  a directory is the list of its entries in the order \<^verbatim>\<open>os.listdir\<close> returns them.
\<close>

datatype node = File bytes | Dir "(string \<times> node) list"

section \<open>The remote server behind the file-transfer channel\<close>

text \<open>
  The operations the program issues on the channel, and the trace of them with the
  exception each one raised (\<open>None\<close>: it returned).
\<close>

datatype op =
    Connect string int
  | StartClient
  | AuthPassword string string
  | OpenSftp
  | Stat string
  | Mkdir string
  | Put string bytes
  | CloseSftp
  | CloseTransport

type_synonym entry = "op \<times> exn option"

text \<open>
  The server is the program's collaborator, not its code: it is modelled as a POSIX-like
  file store. A path names the list of its non-empty segments (a relative path is read
  from the root; \<^verbatim>\<open>.\<close> and \<^verbatim>\<open>..\<close> are names like any other), the root (no segment)
  is always a directory, \<open>rdirs\<close> are the other directories and \<open>rfiles\<close> the files with
  their contents. \<open>faults\<close> lets the server raise any exception at any operation
  (permissions, a dropped connection, a probe that races with another writer).
\<close>

record remote =
  rdirs :: "string list set"
  rfiles :: "string list \<rightharpoonup> bytes"
  faults :: "op \<Rightarrow> exn option"

definition segments :: "string \<Rightarrow> string list" where
  "segments p = filter (\<lambda>w. w \<noteq> []) (split_slash p)"

definition is_dir :: "remote \<Rightarrow> string list \<Rightarrow> bool" where
  "is_dir s q = (q = [] \<or> q \<in> rdirs s)"

definition present :: "remote \<Rightarrow> string list \<Rightarrow> bool" where
  "present s q = (is_dir s q \<or> rfiles s q \<noteq> None)"

definition sftp_stat :: "remote \<Rightarrow> string \<Rightarrow> exn option" where
  "sftp_stat s p =
     (case faults s (Stat p) of
        Some e \<Rightarrow> Some e
      | None \<Rightarrow> if present s (segments p) then None else Some FileNotFoundError)"

definition sftp_mkdir :: "remote \<Rightarrow> string \<Rightarrow> exn option \<times> remote" where
  "sftp_mkdir s p =
     (case faults s (Mkdir p) of
        Some e \<Rightarrow> (Some e, s)
      | None \<Rightarrow>
          if present s (segments p) then (Some IOError, s)
          else if \<not> is_dir s (butlast (segments p)) then (Some FileNotFoundError, s)
          else (None, s\<lparr>rdirs := insert (segments p) (rdirs s)\<rparr>))"

definition sftp_put :: "remote \<Rightarrow> bytes \<Rightarrow> string \<Rightarrow> exn option \<times> remote" where
  "sftp_put s c p =
     (case faults s (Put p c) of
        Some e \<Rightarrow> (Some e, s)
      | None \<Rightarrow>
          if is_dir s (segments p) then (Some IOError, s)
          else if \<not> is_dir s (butlast (segments p)) then (Some FileNotFoundError, s)
          else (None, s\<lparr>rfiles := (rfiles s)(segments p \<mapsto> c)\<rparr>))"

section \<open>\<^verbatim>\<open>_ensure_remote_directory\<close>\<close>

text \<open>
  The loop over \<^verbatim>\<open>parts\<close>: empty parts are skipped, \<^verbatim>\<open>current_path\<close> grows by one
  segment, a probe that raises \<^verbatim>\<open>FileNotFoundError\<close> is followed by \<^verbatim>\<open>mkdir\<close>, whose
  every exception is swallowed; any other exception of the probe propagates.
  Each function returns the exception it raised, the server's state and the trace.
\<close>

fun ensure_parts :: "remote \<Rightarrow> string \<Rightarrow> string list \<Rightarrow> exn option \<times> remote \<times> entry list" where
  "ensure_parts s current_path [] = (None, s, [])"
| "ensure_parts s current_path (part # parts) =
     (if part = [] then ensure_parts s current_path parts
      else
        let cp = (if current_path \<noteq> [] then current_path @ ''/'' @ part else ''/'' @ part) in
        (case sftp_stat s cp of
           None \<Rightarrow>
             (case ensure_parts s cp parts of
                (r, s', tr) \<Rightarrow> (r, s', (Stat cp, None) # tr))
         | Some e \<Rightarrow>
             if e = FileNotFoundError then
               (case sftp_mkdir s cp of
                  (m, s1) \<Rightarrow>
                    (case ensure_parts s1 cp parts of
                       (r, s', tr) \<Rightarrow> (r, s', (Stat cp, Some e) # (Mkdir cp, m) # tr)))
             else (Some e, s, [(Stat cp, Some e)])))"

definition ensure_remote_directory :: "remote \<Rightarrow> string \<Rightarrow> exn option \<times> remote \<times> entry list" where
  "ensure_remote_directory s remote_dir =
     (case sftp_stat s remote_dir of
        None \<Rightarrow> (None, s, [(Stat remote_dir, None)])
      | Some e \<Rightarrow>
          if e = FileNotFoundError then
            (case ensure_parts s [] (split_slash (rstrip_slash remote_dir)) of
               (r, s', tr) \<Rightarrow> (r, s', (Stat remote_dir, Some e) # tr))
          else (Some e, s, [(Stat remote_dir, Some e)]))"

section \<open>\<^verbatim>\<open>_upload_directory\<close>\<close>

text \<open>
  \<open>upload_directory\<close> is the method, \<open>upload_items\<close> its \<^verbatim>\<open>for item in os.listdir\<close>
  loop. \<^verbatim>\<open>os.listdir\<close> of a path that is a file raises \<^verbatim>\<open>NotADirectoryError\<close>.
  An exception of a recursive call or of \<^verbatim>\<open>sftp.put\<close> leaves the loop at once.
\<close>

fun upload_directory :: "remote \<Rightarrow> node \<Rightarrow> string \<Rightarrow> exn option \<times> remote \<times> entry list"
  and upload_items :: "remote \<Rightarrow> (string \<times> node) list \<Rightarrow> string \<Rightarrow> exn option \<times> remote \<times> entry list"
where
  "upload_directory s local_dir remote_dir =
     (case ensure_remote_directory s remote_dir of
        (Some e, s1, t1) \<Rightarrow> (Some e, s1, t1)
      | (None, s1, t1) \<Rightarrow>
          (case local_dir of
             File c \<Rightarrow> (Some NotADirectoryError, s1, t1)
           | Dir items \<Rightarrow>
               (case upload_items s1 items remote_dir of
                  (r, s2, t2) \<Rightarrow> (r, s2, t1 @ t2))))"
| "upload_items s [] remote_dir = (None, s, [])"
| "upload_items s ((item, n) # items) remote_dir =
     (let remote_path = rstrip_slash remote_dir @ ''/'' @ item in
      case n of
        Dir sub \<Rightarrow>
          (case upload_directory s n remote_path of
             (Some e, s1, t1) \<Rightarrow> (Some e, s1, t1)
           | (None, s1, t1) \<Rightarrow>
               (case upload_items s1 items remote_dir of
                  (r, s2, t2) \<Rightarrow> (r, s2, t1 @ t2)))
      | File c \<Rightarrow>
          (case sftp_put s c remote_path of
             (Some e, s1) \<Rightarrow> (Some e, s1, [(Put remote_path c, Some e)])
           | (None, s1) \<Rightarrow>
               (case upload_items s1 items remote_dir of
                  (r, s2, t2) \<Rightarrow> (r, s2, (Put remote_path c, None) # t2))))"

section \<open>Configuration, logging and external commands\<close>

text \<open>
  The mapping loaded from \<^verbatim>\<open>config.yaml\<close>, read with \<^verbatim>\<open>self.config.get\<close>: a key that is
  absent is \<open>None\<close> (for the two lists: the empty list, their default). Python's
  truth test \<^verbatim>\<open>not x\<close> holds for \<^verbatim>\<open>None\<close> and for the empty string.
\<close>

record repo =
  name :: "string option"
  url :: "string option"

record config =
  repo_path :: "string option"
  repos :: "repo list"
  recipes :: "string list"
  sftp_host :: "string option"
  sftp_port :: "int option"
  sftp_user :: "string option"
  sftp_password :: "string option"

definition truthy :: "string option \<Rightarrow> bool" where
  "truthy v = (case v of None \<Rightarrow> False | Some x \<Rightarrow> x \<noteq> [])"

text \<open>
  The local machine: the directory of the script, \<^verbatim>\<open>os.path.abspath\<close> (the library's
  normalisation, taken as given) and the file system as a lookup from an absolute
  path to the tree found there (\<open>None\<close>: \<^verbatim>\<open>os.path.exists\<close> is false).
\<close>

record os_env =
  script_dir :: string
  abspath :: "string \<Rightarrow> string"
  lfs :: "string \<Rightarrow> node option"

definition isabs :: "string \<Rightarrow> bool" where
  "isabs p = (case p of [] \<Rightarrow> False | c # cs \<Rightarrow> c = CHR ''/'')"

definition path_join :: "string \<Rightarrow> string \<Rightarrow> string" where
  "path_join a b =
     (if isabs b then b
      else if a = [] \<or> last a = CHR ''/'' then a @ b
      else a @ ''/'' @ b)"

definition resolve_repo_path :: "os_env \<Rightarrow> string \<Rightarrow> string" where
  "resolve_repo_path env p =
     abspath env (if \<not> isabs p then path_join (script_dir env) p else p)"

definition path_exists :: "os_env \<Rightarrow> string \<Rightarrow> bool" where
  "path_exists env p = (lfs env p \<noteq> None)"

text \<open>
  \<^verbatim>\<open>logging\<close> at level INFO (debug messages are not emitted). The text an
  exception formats to is left out of the messages.
\<close>

datatype level = INFO | WARNING | ERROR

text \<open>
  What \<^verbatim>\<open>subprocess.run\<close> can do with a command: the process ran and exited with a
  return code, standard output and standard error; the executable was not found
  (\<^verbatim>\<open>FileNotFoundError\<close>); or launching failed otherwise (\<^verbatim>\<open>OSError\<close>). The outside
  world is a function from the commands launched so far and the command to launch.
\<close>

datatype completed = Exited int string string | CmdNotFound | OSFailure

type_synonym world = "string list list \<Rightarrow> string list \<Rightarrow> completed"

record proc =
  calls :: "string list list"
  logs :: "(level \<times> string) list"
  environ :: "(string \<times> string) list"

record cproc =
  returncode :: int
  stdout :: string
  stderr :: string

text \<open>How a call ends: it returns a value, raises an exception, or \<^verbatim>\<open>sys.exit\<close>.\<close>

datatype 'a res = Return 'a | Raise exn | SysExit int

definition log :: "level \<Rightarrow> string \<Rightarrow> proc \<Rightarrow> proc" where
  "log l m st = st\<lparr>logs := logs st @ [(l, m)]\<rparr>"

definition launch :: "world \<Rightarrow> string list \<Rightarrow> proc \<Rightarrow> completed \<times> proc" where
  "launch orc command st = (orc (calls st) command, st\<lparr>calls := calls st @ [command]\<rparr>)"

text \<open>
  \<^verbatim>\<open>subprocess.run(command, check=..., capture_output=..., text=True)\<close>. Output
  that is not captured is \<^verbatim>\<open>None\<close> in Python and the empty string here: the
  program reads it only through truth tests, and where it was captured.
\<close>

definition subprocess_run :: "world \<Rightarrow> string list \<Rightarrow> bool \<Rightarrow> bool \<Rightarrow> proc \<Rightarrow> cproc res \<times> proc" where
  "subprocess_run orc command check capture_output st =
     (case launch orc command st of
        (Exited rc out err, st1) \<Rightarrow>
          if check \<and> rc \<noteq> 0 then
            (Raise (CalledProcessError rc (if capture_output then err else [])), st1)
          else
            (Return \<lparr>returncode = rc,
                     stdout = (if capture_output then out else []),
                     stderr = (if capture_output then err else [])\<rparr>, st1)
      | (CmdNotFound, st1) \<Rightarrow> (Raise FileNotFoundError, st1)
      | (OSFailure, st1) \<Rightarrow> (Raise OSError, st1))"

text \<open>
  \<^verbatim>\<open>_run_command\<close>: \<^verbatim>\<open>CalledProcessError\<close> is logged and raised again when \<^verbatim>\<open>check\<close>
  is set, \<^verbatim>\<open>FileNotFoundError\<close> ends the process with \<^verbatim>\<open>sys.exit(1)\<close>, and any other
  exception passes through.
\<close>

definition run_command :: "world \<Rightarrow> string list \<Rightarrow> bool \<Rightarrow> bool \<Rightarrow> proc \<Rightarrow> cproc option res \<times> proc" where
  "run_command orc command check capture_output st =
     (case subprocess_run orc command check capture_output st of
        (Return result, st1) \<Rightarrow> (Return (Some result), st1)
      | (Raise e, st1) \<Rightarrow>
          (case e of
             CalledProcessError rc err \<Rightarrow>
               (let st2 = log ERROR ''Command failed'' st1;
                    st3 = (if err \<noteq> [] then log ERROR ''Error output'' st2 else st2)
                in if check then (Raise e, st3) else (Return None, st3))
           | FileNotFoundError \<Rightarrow>
               (SysExit 1,
                log ERROR ''Make sure AutoPkg is installed and in PATH''
                  (log ERROR ''Command not found'' st1))
           | _ \<Rightarrow> (Raise e, st1))
      | (SysExit n, st1) \<Rightarrow> (SysExit n, st1))"

section \<open>The preference steps\<close>

definition munki_repo_cmd :: "string \<Rightarrow> string list" where
  "munki_repo_cmd p = [''defaults'', ''write'', ''com.github.autopkg'', ''MUNKI_REPO'', p]"

definition configure_munki_repo :: "world \<Rightarrow> os_env \<Rightarrow> config \<Rightarrow> proc \<Rightarrow> unit res \<times> proc" where
  "configure_munki_repo orc env cfg st =
     (if \<not> truthy (repo_path cfg) then
        (Return (), log WARNING ''No repo_path specified in config, skipping MUNKI_REPO configuration'' st)
      else
        let p = resolve_repo_path env (the (repo_path cfg)) in
        if \<not> path_exists env p then
          (Return (),
           log WARNING ''Skipping MUNKI_REPO configuration''
             (log WARNING ''MUNKI_REPO path does not exist'' st))
        else
          (case run_command orc (munki_repo_cmd p) True False (log INFO ''Configuring MUNKI_REPO'' st) of
             (Return r, st1) \<Rightarrow> (Return (), log INFO ''MUNKI_REPO configured successfully'' st1)
           | (Raise e, st1) \<Rightarrow> (Raise e, log ERROR ''Failed to configure MUNKI_REPO'' st1)
           | (SysExit n, st1) \<Rightarrow> (SysExit n, st1)))"

definition trust_info_cmd :: "string list" where
  "trust_info_cmd =
     [''defaults'', ''write'', ''com.github.autopkg'', ''FAIL_RECIPES_WITHOUT_TRUST_INFO'', ''-bool'', ''false'']"

definition configure_trust_info :: "world \<Rightarrow> proc \<Rightarrow> unit res \<times> proc" where
  "configure_trust_info orc st =
     (case run_command orc trust_info_cmd True False
             (log INFO ''Configuring AutoPkg trust info preference...'' st) of
        (Return r, st1) \<Rightarrow>
          (Return (),
           log INFO ''FAIL_RECIPES_WITHOUT_TRUST_INFO configured''
             (st1\<lparr>environ := (''FAIL_RECIPES_WITHOUT_TRUST_INFO'', ''false'') # environ st1\<rparr>))
      | (Raise e, st1) \<Rightarrow> (Return (), log WARNING ''Failed to configure trust info preference'' st1)
      | (SysExit n, st1) \<Rightarrow> (SysExit n, st1))"

section \<open>\<^verbatim>\<open>add_repositories\<close>\<close>

text \<open>Python's \<^verbatim>\<open>pat in text\<close> on strings.\<close>

fun contains :: "string \<Rightarrow> string \<Rightarrow> bool" where
  "contains pat [] = (pat = [])"
| "contains pat (c # cs) = (take (length pat) (c # cs) = pat \<or> contains pat cs)"

definition repo_add_cmd :: "string \<Rightarrow> string list" where
  "repo_add_cmd n = [''autopkg'', ''repo-add'', n]"

definition repo_list_cmd :: "string list" where
  "repo_list_cmd = [''autopkg'', ''repo-list'']"

definition valid_repo :: "repo \<Rightarrow> bool" where
  "valid_repo r = (truthy (name r) \<and> truthy (url r))"

text \<open>
  The \<^verbatim>\<open>for repo in repos\<close> loop. \<^verbatim>\<open>except Exception\<close> catches what the two commands
  raise and goes on with the next entry; \<^verbatim>\<open>SystemExit\<close> is not an \<^verbatim>\<open>Exception\<close> and
  leaves the loop.
\<close>

fun add_repos_loop :: "world \<Rightarrow> repo list \<Rightarrow> proc \<Rightarrow> unit res \<times> proc" where
  "add_repos_loop orc [] st = (Return (), st)"
| "add_repos_loop orc (r # rest) st =
     (if \<not> truthy (name r) \<or> \<not> truthy (url r) then
        add_repos_loop orc rest (log WARNING ''Skipping invalid repo entry'' st)
      else
        (case run_command orc (repo_add_cmd (the (name r))) False True
                (log INFO ''Adding repository'' st) of
           (SysExit n, st1) \<Rightarrow> (SysExit n, st1)
         | (Raise e, st1) \<Rightarrow> add_repos_loop orc rest (log ERROR ''Error adding repository'' st1)
         | (Return result, st1) \<Rightarrow>
             if result \<noteq> None \<and> returncode (the result) \<noteq> 0 then
               (case run_command orc repo_list_cmd True True st1 of
                  (SysExit n, st2) \<Rightarrow> (SysExit n, st2)
                | (Raise e, st2) \<Rightarrow>
                    add_repos_loop orc rest (log ERROR ''Error adding repository'' st2)
                | (Return repo_list_result, st2) \<Rightarrow>
                    (let repo_list_output =
                           (case repo_list_result of Some x \<Rightarrow> stdout x | None \<Rightarrow> [])
                     in if contains (the (name r)) repo_list_output
                           \<or> contains (the (url r)) repo_list_output
                        then add_repos_loop orc rest (log INFO ''Repository is already added'' st2)
                        else add_repos_loop orc rest
                               (log WARNING ''Failed to add repository, may already exist'' st2)))
             else add_repos_loop orc rest (log INFO ''Repository added successfully'' st1)))"

definition add_repositories :: "world \<Rightarrow> config \<Rightarrow> proc \<Rightarrow> unit res \<times> proc" where
  "add_repositories orc cfg st =
     (if repos cfg = [] then (Return (), log WARNING ''No repositories specified in config'' st)
      else add_repos_loop orc (repos cfg) (log INFO ''Adding repository(ies)...'' st))"

section \<open>\<^verbatim>\<open>run_recipes\<close>\<close>

definition recipe_cmd :: "string \<Rightarrow> string list" where
  "recipe_cmd recipe = [''autopkg'', ''run'', ''-v'', recipe]"

text \<open>
  The \<^verbatim>\<open>for recipe in recipes\<close> loop calls \<^verbatim>\<open>subprocess.run\<close> itself, with
  \<^verbatim>\<open>check=False\<close>, inside \<^verbatim>\<open>try ... except Exception\<close>.
\<close>

fun recipes_loop :: "world \<Rightarrow> string list \<Rightarrow> proc \<Rightarrow> unit res \<times> proc" where
  "recipes_loop orc [] st = (Return (), st)"
| "recipes_loop orc (recipe # rest) st =
     (if recipe = [] then recipes_loop orc rest st
      else
        (case subprocess_run orc (recipe_cmd recipe) False False (log INFO ''Running recipe'' st) of
           (Return result, st1) \<Rightarrow>
             if returncode result = 0
             then recipes_loop orc rest (log INFO ''Recipe completed successfully'' st1)
             else recipes_loop orc rest (log ERROR ''Recipe failed with exit code'' st1)
         | (Raise e, st1) \<Rightarrow> recipes_loop orc rest (log ERROR ''Recipe failed'' st1)
         | (SysExit n, st1) \<Rightarrow> (SysExit n, st1)))"

definition run_recipes :: "world \<Rightarrow> config \<Rightarrow> proc \<Rightarrow> unit res \<times> proc" where
  "run_recipes orc cfg st =
     (if recipes cfg = [] then (Return (), log WARNING ''No recipes specified in config'' st)
      else recipes_loop orc (recipes cfg) (log INFO ''Running recipe(s)...'' st))"

section \<open>\<^verbatim>\<open>run\<close> and the exit status\<close>

text \<open>One statement after another inside the \<^verbatim>\<open>try\<close> block of \<^verbatim>\<open>run\<close>.\<close>

definition then_step :: "unit res \<times> proc \<Rightarrow> (proc \<Rightarrow> unit res \<times> proc) \<Rightarrow> unit res \<times> proc" where
  "then_step m f =
     (case m of
        (Return u, st) \<Rightarrow> f st
      | (Raise e, st) \<Rightarrow> (Raise e, st)
      | (SysExit n, st) \<Rightarrow> (SysExit n, st))"

definition run :: "world \<Rightarrow> os_env \<Rightarrow> config \<Rightarrow> proc \<Rightarrow> unit res \<times> proc" where
  "run orc env cfg st =
     (case then_step
             (then_step
                (then_step
                   (configure_munki_repo orc env cfg
                      (log INFO ''Starting AutoPkg configuration and recipe execution...'' st))
                   (configure_trust_info orc))
                (add_repositories orc cfg))
             (run_recipes orc cfg) of
        (Return u, st1) \<Rightarrow> (Return (), log INFO ''AutoPkg runner completed successfully'' st1)
      | (Raise e, st1) \<Rightarrow> (SysExit 1, log ERROR ''AutoPkg runner failed'' st1)
      | (SysExit n, st1) \<Rightarrow> (SysExit n, st1))"

text \<open>
  The status the process ends with: 0 when \<^verbatim>\<open>main\<close> returns, the argument of
  \<^verbatim>\<open>sys.exit\<close>, and 1 for an exception nobody caught.
\<close>

definition exit_code :: "'a res \<Rightarrow> int" where
  "exit_code r = (case r of Return v \<Rightarrow> 0 | Raise e \<Rightarrow> 1 | SysExit n \<Rightarrow> n)"

section \<open>\<^verbatim>\<open>upload_repo\<close>\<close>

text \<open>
  The network: what each call of the transport library raises (\<open>None\<close>: it returns),
  and the server that is reached.
\<close>

record net =
  connect_raises :: "exn option"
  start_client_raises :: "exn option"
  auth_password_raises :: "exn option"
  open_sftp_raises :: "exn option"
  close_sftp_raises :: "exn option"
  close_transport_raises :: "exn option"
  server :: remote

text \<open>
  The body of the \<^verbatim>\<open>try\<close> block. With the exception that left it, it returns whether
  the variables \<^verbatim>\<open>transport\<close> and \<^verbatim>\<open>sftp\<close> were assigned, for the \<^verbatim>\<open>finally\<close> block.
\<close>

definition upload_try ::
  "net \<Rightarrow> node \<Rightarrow> string \<Rightarrow> int \<Rightarrow> string \<Rightarrow> string
     \<Rightarrow> exn option \<times> bool \<times> bool \<times> remote \<times> entry list" where
  "upload_try nw tree host port user pw =
     (case connect_raises nw of
        Some e \<Rightarrow> (Some e, False, False, server nw, [(Connect host port, Some e)])
      | None \<Rightarrow>
     (case start_client_raises nw of
        Some e \<Rightarrow>
          (Some e, True, False, server nw, [(Connect host port, None), (StartClient, Some e)])
      | None \<Rightarrow>
     (case auth_password_raises nw of
        Some e \<Rightarrow>
          (Some e, True, False, server nw,
           [(Connect host port, None), (StartClient, None), (AuthPassword user pw, Some e)])
      | None \<Rightarrow>
     (case open_sftp_raises nw of
        Some e \<Rightarrow>
          (Some e, True, False, server nw,
           [(Connect host port, None), (StartClient, None), (AuthPassword user pw, None),
            (OpenSftp, Some e)])
      | None \<Rightarrow>
          (case upload_directory (server nw) tree ''/'' of
             (r, s', tr) \<Rightarrow>
               (r, True, True, s',
                [(Connect host port, None), (StartClient, None), (AuthPassword user pw, None),
                 (OpenSftp, None)] @ tr))))))"

text \<open>The three \<^verbatim>\<open>except\<close> clauses, in their order: the message logged and the exit status.\<close>

definition upload_handler :: "exn \<Rightarrow> string \<times> int" where
  "upload_handler e =
     (if e = AuthenticationException
      then (''SFTP authentication failed - check username/password in config'', 1)
      else if e = SSHException then (''SFTP connection error'', 1)
      else (''SFTP upload failed'', 1))"

text \<open>The \<^verbatim>\<open>finally\<close> block: each close is tried, and whatever it raises is dropped.\<close>

definition upload_finally :: "net \<Rightarrow> bool \<Rightarrow> bool \<Rightarrow> entry list" where
  "upload_finally nw transport sftp =
     (if sftp then [(CloseSftp, close_sftp_raises nw)] else [])
     @ (if transport then [(CloseTransport, close_transport_raises nw)] else [])"

text \<open>
  \<open>paramiko\<close> says whether the import of the library succeeded. The result is how the
  call ends, the message logged last (the error, or the success; the informational
  messages before it are left out), the server's state and the trace of the session.
\<close>

definition upload_repo ::
  "bool \<Rightarrow> os_env \<Rightarrow> net \<Rightarrow> config
     \<Rightarrow> unit res \<times> (level \<times> string) list \<times> remote \<times> entry list" where
  "upload_repo paramiko env nw cfg =
     (if \<not> paramiko then
        (SysExit 1,
         [(ERROR, ''paramiko library is required for SFTP upload''),
          (ERROR, ''Install it with: pip install paramiko'')], server nw, [])
      else if \<not> (truthy (sftp_host cfg) \<and> truthy (sftp_user cfg) \<and> truthy (sftp_password cfg)) then
        (SysExit 1, [(ERROR, ''Missing SFTP configuration'')], server nw, [])
      else if \<not> truthy (repo_path cfg) then
        (SysExit 1, [(ERROR, ''No repo_path specified in config'')], server nw, [])
      else
        let p = resolve_repo_path env (the (repo_path cfg)) in
        (case lfs env p of
           None \<Rightarrow> (SysExit 1, [(ERROR, ''Repository path does not exist'')], server nw, [])
         | Some tree \<Rightarrow>
             (case upload_try nw tree (the (sftp_host cfg))
                     (case sftp_port cfg of None \<Rightarrow> 22 | Some n \<Rightarrow> n)
                     (the (sftp_user cfg)) (the (sftp_password cfg)) of
                (r, transport, sftp, s', tr) \<Rightarrow>
                  (case r of
                     None \<Rightarrow>
                       (Return (), [(INFO, ''Repository upload completed successfully'')], s',
                        tr @ upload_finally nw transport sftp)
                   | Some e \<Rightarrow>
                       (SysExit (snd (upload_handler e)), [(ERROR, fst (upload_handler e))], s',
                        tr @ upload_finally nw transport sftp)))))"

section \<open>Predicates used by the properties\<close>

text \<open>An executable can be launched: the outside world never answers "not found".\<close>

definition launchable :: "world \<Rightarrow> string list \<Rightarrow> bool" where
  "launchable orc c = (\<forall>h. orc h c \<noteq> CmdNotFound)"

text \<open>
  A command that was launched and failed: it exited with a non-zero status, or
  launching it raised an error other than "not found".
\<close>

definition primitive_fails :: "completed \<Rightarrow> bool" where
  "primitive_fails c =
     (case c of Exited rc out err \<Rightarrow> rc \<noteq> 0 | CmdNotFound \<Rightarrow> False | OSFailure \<Rightarrow> True)"

text \<open>
  What \<^verbatim>\<open>os.listdir\<close> can return: names are not empty and hold no slash, and no name
  occurs twice in one directory.
\<close>

definition valid_name :: "string \<Rightarrow> bool" where
  "valid_name n = (n \<noteq> [] \<and> CHR ''/'' \<notin> set n)"

fun wf_node :: "node \<Rightarrow> bool"
  and wf_items :: "(string \<times> node) list \<Rightarrow> bool"
where
  "wf_node (File c) = True"
| "wf_node (Dir items) = wf_items items"
| "wf_items [] = True"
| "wf_items ((item, n) # items) =
     (valid_name item \<and> item \<notin> fst ` set items \<and> wf_node n \<and> wf_items items)"

text \<open>The files of a tree: the names on the way to each file, and its contents.\<close>

fun files_of :: "node \<Rightarrow> (string list \<times> bytes) list"
  and files_of_items :: "(string \<times> node) list \<Rightarrow> (string list \<times> bytes) list"
where
  "files_of (File c) = [([], c)]"
| "files_of (Dir items) = files_of_items items"
| "files_of_items [] = []"
| "files_of_items ((item, n) # items) =
     map (\<lambda>(q, c). (item # q, c)) (files_of n) @ files_of_items items"

text \<open>The operations of the file-transfer channel, and those that create something.\<close>

fun sftp_op :: "op \<Rightarrow> bool" where
  "sftp_op (Stat p) = True"
| "sftp_op (Mkdir p) = True"
| "sftp_op (Put p c) = True"
| "sftp_op x = False"

fun failed_put :: "entry \<Rightarrow> bool" where
  "failed_put (Put p c, Some e) = True"
| "failed_put x = False"

text \<open>The two operations of the \<^verbatim>\<open>finally\<close> block.\<close>

fun closing :: "op \<Rightarrow> bool" where
  "closing CloseSftp = True"
| "closing CloseTransport = True"
| "closing x = False"

text \<open>
  The walk, flattened: the actions \<open>upload_directory\<close> takes on a tree, in order, and
  their execution up to the first exception. \<open>upload_is_exec\<close> below shows that this
  is what the recursive functions do; the properties of the walk are proved on it.
\<close>

datatype action = Ensure string | PutFile string bytes | ListDirFails

fun plan :: "node \<Rightarrow> string \<Rightarrow> action list"
  and plan_items :: "(string \<times> node) list \<Rightarrow> string \<Rightarrow> action list"
where
  "plan (File c) remote_dir = [Ensure remote_dir, ListDirFails]"
| "plan (Dir items) remote_dir = Ensure remote_dir # plan_items items remote_dir"
| "plan_items [] remote_dir = []"
| "plan_items ((item, n) # items) remote_dir =
     (case n of
        Dir sub \<Rightarrow> plan n (rstrip_slash remote_dir @ ''/'' @ item)
      | File c \<Rightarrow> [PutFile (rstrip_slash remote_dir @ ''/'' @ item) c])
     @ plan_items items remote_dir"

fun act :: "remote \<Rightarrow> action \<Rightarrow> exn option \<times> remote \<times> entry list" where
  "act s (Ensure remote_dir) = ensure_remote_directory s remote_dir"
| "act s (PutFile remote_path c) =
     (case sftp_put s c remote_path of (x, s1) \<Rightarrow> (x, s1, [(Put remote_path c, x)]))"
| "act s ListDirFails = (Some NotADirectoryError, s, [])"

fun exec :: "remote \<Rightarrow> action list \<Rightarrow> exn option \<times> remote \<times> entry list" where
  "exec s [] = (None, s, [])"
| "exec s (a # as) =
     (case act s a of
        (Some e, s1, t1) \<Rightarrow> (Some e, s1, t1)
      | (None, s1, t1) \<Rightarrow> (case exec s1 as of (r, s2, t2) \<Rightarrow> (r, s2, t1 @ t2)))"

text \<open>The transfers of a list of actions: remote path and contents.\<close>

fun puts :: "action list \<Rightarrow> (string \<times> bytes) list" where
  "puts [] = []"
| "puts (PutFile remote_path c # as) = (remote_path, c) # puts as"
| "puts (a # as) = puts as"

text \<open>
  Parent before child, on a trace. An entry ensures a remote directory when it is a
  probe that found it or an attempt to create it; an entry creates a path when it
  is a \<^verbatim>\<open>mkdir\<close> or a transfer. \<open>dirs_first E tr\<close> holds when, at every creating
  entry of \<open>tr\<close>, the parent of the created path is in \<open>E\<close> or was ensured by an
  earlier entry of \<open>tr\<close>. \<open>plan_ok\<close> is the same for a list of actions.
\<close>

fun ensured_by :: "entry \<Rightarrow> string list set" where
  "ensured_by (Stat q, None) = {segments q}"
| "ensured_by (Mkdir q, m) = {segments q}"
| "ensured_by x = {}"

fun creates :: "op \<Rightarrow> string option" where
  "creates (Mkdir p) = Some p"
| "creates (Put p c) = Some p"
| "creates x = None"

fun dirs_first :: "string list set \<Rightarrow> entry list \<Rightarrow> bool" where
  "dirs_first E [] = True"
| "dirs_first E (x # tr) =
     ((case creates (fst x) of None \<Rightarrow> True | Some p \<Rightarrow> butlast (segments p) \<in> E)
      \<and> dirs_first (E \<union> ensured_by x) tr)"

fun plan_ok :: "string list set \<Rightarrow> action list \<Rightarrow> bool" where
  "plan_ok E [] = True"
| "plan_ok E (Ensure rd # as) = plan_ok (insert (segments rd) E) as"
| "plan_ok E (PutFile rp c # as) = (butlast (segments rp) \<in> E \<and> plan_ok E as)"
| "plan_ok E (ListDirFails # as) = plan_ok E as"

section \<open>Commands launched and messages logged\<close>

lemma calls_log [simp]: "calls (log l m st) = calls st"
  by (simp add: log_def)

lemma logs_log [simp]: "logs (log l m st) = logs st @ [(l, m)]"
  by (simp add: log_def)

lemma subprocess_run_calls:
  "subprocess_run orc c chk cap st = (r, st') \<Longrightarrow> calls st' = calls st @ [c]"
  by (auto simp: subprocess_run_def launch_def split: completed.splits if_splits)

lemma subprocess_run_no_exit:
  "subprocess_run orc c chk cap st \<noteq> (SysExit n, st')"
  by (auto simp: subprocess_run_def launch_def split: completed.splits if_splits)

lemma run_command_calls:
  "run_command orc c chk cap st = (r, st') \<Longrightarrow> calls st' = calls st @ [c]"
  by (auto simp: run_command_def subprocess_run_def launch_def Let_def
           split: completed.splits if_splits exn.splits)

lemma run_command_exit:
  "run_command orc c chk cap st = (SysExit n, st') \<Longrightarrow> orc (calls st) c = CmdNotFound \<and> n = 1"
  by (auto simp: run_command_def subprocess_run_def launch_def Let_def
           split: completed.splits if_splits exn.splits)

lemma run_command_not_found:
  "orc (calls st) c = CmdNotFound \<Longrightarrow> fst (run_command orc c chk cap st) = SysExit 1"
  by (simp add: run_command_def subprocess_run_def launch_def)

lemma run_command_check_fails:
  "primitive_fails (orc (calls st) c) \<Longrightarrow>
     \<exists>e st'. run_command orc c True cap st = (Raise e, st') \<and> calls st' = calls st @ [c]
        \<and> (\<exists>ms. logs st' = logs st @ ms)"
  by (auto simp: run_command_def subprocess_run_def launch_def Let_def primitive_fails_def log_def
           split: completed.splits if_splits exn.splits)

section \<open>The recipe loop attempts every recipe\<close>

lemma recipes_loop_all:
  "recipes_loop orc rs st = (r, st') \<Longrightarrow>
     r = Return () \<and> calls st' = calls st @ map recipe_cmd (filter (\<lambda>x. x \<noteq> []) rs)"
proof (induction rs arbitrary: st)
  case Nil
  then show ?case by simp
next
  case (Cons a rs)
  show ?case
  proof (cases "a = []")
    case True
    with Cons show ?thesis by simp
  next
    case False
    obtain x st1 where sr:
      "subprocess_run orc (recipe_cmd a) False False (log INFO ''Running recipe'' st) = (x, st1)"
      by (cases "subprocess_run orc (recipe_cmd a) False False (log INFO ''Running recipe'' st)")
    from subprocess_run_calls[OF sr] have c1: "calls st1 = calls st @ [recipe_cmd a]" by simp
    from sr subprocess_run_no_exit have ne: "\<And>n. x \<noteq> SysExit n" by metis
    show ?thesis
    proof (cases x)
      case (Return v)
      with Cons.prems False sr
      have "recipes_loop orc rs (log INFO ''Recipe completed successfully'' st1) = (r, st')
            \<or> recipes_loop orc rs (log ERROR ''Recipe failed with exit code'' st1) = (r, st')"
        by (auto split: if_splits)
      then show ?thesis using Cons.IH c1 False by fastforce
    next
      case (Raise e)
      with Cons.prems False sr
      have "recipes_loop orc rs (log ERROR ''Recipe failed'' st1) = (r, st')" by simp
      then show ?thesis using Cons.IH c1 False by fastforce
    next
      case (SysExit n)
      with ne[of n] show ?thesis by blast
    qed
  qed
qed

lemma run_recipes_all:
  "fst (run_recipes orc cfg st) = Return () \<and>
   calls (snd (run_recipes orc cfg st))
     = calls st @ map recipe_cmd (filter (\<lambda>x. x \<noteq> []) (recipes cfg))"
proof (cases "recipes cfg = []")
  case True
  then show ?thesis by (simp add: run_recipes_def)
next
  case False
  obtain r st' where e:
    "recipes_loop orc (recipes cfg) (log INFO ''Running recipe(s)...'' st) = (r, st')"
    by (cases "recipes_loop orc (recipes cfg) (log INFO ''Running recipe(s)...'' st)")
  from recipes_loop_all[OF e] False e show ?thesis by (simp add: run_recipes_def)
qed

section \<open>The repository loop goes on after a failure\<close>

lemma add_repos_loop_isolated:
  assumes "\<forall>n. launchable orc (repo_add_cmd n)" and "launchable orc repo_list_cmd"
  shows "add_repos_loop orc rs st = (r, st') \<Longrightarrow>
     r = Return () \<and>
     (\<exists>new. calls st' = calls st @ new \<and>
        filter (\<lambda>c. c \<noteq> repo_list_cmd) new
          = map (\<lambda>x. repo_add_cmd (the (name x))) (filter valid_repo rs))"
proof (induction rs arbitrary: st)
  case Nil
  then show ?case by simp
next
  case (Cons a rs)
  let ?goal = ?case
  show ?case
  proof (cases "valid_repo a")
    case False
    with Cons.prems
    have "add_repos_loop orc rs (log WARNING ''Skipping invalid repo entry'' st) = (r, st')"
      by (auto simp: valid_repo_def)
    from Cons.IH[OF this] False show ?thesis by simp
  next
    case True
    let ?c = "repo_add_cmd (the (name a))"
    have ne: "?c \<noteq> repo_list_cmd" by (simp add: repo_add_cmd_def repo_list_cmd_def)
    obtain x st1 where rc:
      "run_command orc ?c False True (log INFO ''Adding repository'' st) = (x, st1)"
      by (cases "run_command orc ?c False True (log INFO ''Adding repository'' st)")
    from run_command_calls[OF rc] have c1: "calls st1 = calls st @ [?c]" by simp
    have nx: "x \<noteq> SysExit n" for n
      using rc run_command_exit assms(1) unfolding launchable_def by blast
    have step: ?goal
      if a: "add_repos_loop orc rs st2 = (r, st')" and b: "calls st2 = calls st @ ?c # new2"
        and c: "set new2 \<subseteq> {repo_list_cmd}" for st2 new2
    proof -
      from Cons.IH[OF a] obtain new where r: "r = Return ()" and n: "calls st' = calls st2 @ new"
        and f: "filter (\<lambda>c. c \<noteq> repo_list_cmd) new
                  = map (\<lambda>x. repo_add_cmd (the (name x))) (filter valid_repo rs)"
        by blast
      from c have "filter (\<lambda>c. c \<noteq> repo_list_cmd) new2 = []" by (auto simp: filter_empty_conv)
      with r n f b ne True show ?thesis by simp
    qed
    show ?thesis
    proof (cases x)
      case (SysExit n)
      with nx show ?thesis by blast
    next
      case (Raise e)
      with Cons.prems True rc
      have "add_repos_loop orc rs (log ERROR ''Error adding repository'' st1) = (r, st')"
        by (simp add: valid_repo_def)
      then show ?thesis using step[of _ "[]"] c1 by simp
    next
      case (Return result)
      show ?thesis
      proof (cases "result \<noteq> None \<and> returncode (the result) \<noteq> 0")
        case False
        with Cons.prems True rc Return
        have "add_repos_loop orc rs (log INFO ''Repository added successfully'' st1) = (r, st')"
          by (auto simp: valid_repo_def)
        then show ?thesis using step[of _ "[]"] c1 by simp
      next
        case T2: True
        obtain y st2 where rl: "run_command orc repo_list_cmd True True st1 = (y, st2)"
          by (cases "run_command orc repo_list_cmd True True st1")
        from run_command_calls[OF rl] c1
        have c2: "calls st2 = calls st @ ?c # [repo_list_cmd]" by simp
        have ny: "y \<noteq> SysExit n" for n
          using rl run_command_exit assms(2) unfolding launchable_def by blast
        from Cons.prems True rc Return T2 rl ny
        have "\<exists>l m. add_repos_loop orc rs (log l m st2) = (r, st')"
          by (cases y) (auto simp: valid_repo_def Let_def split: if_splits)
        then obtain l m where "add_repos_loop orc rs (log l m st2) = (r, st')" by blast
        then show ?thesis using step[of _ "[repo_list_cmd]"] c2 by simp
      qed
    qed
  qed
qed

lemma add_repositories_isolated:
  assumes "\<forall>n. launchable orc (repo_add_cmd n)" and "launchable orc repo_list_cmd"
  shows "fst (add_repositories orc cfg st) = Return () \<and>
     (\<exists>new. calls (snd (add_repositories orc cfg st)) = calls st @ new \<and>
        filter (\<lambda>c. c \<noteq> repo_list_cmd) new
          = map (\<lambda>x. repo_add_cmd (the (name x))) (filter valid_repo (repos cfg)))"
proof (cases "repos cfg = []")
  case True
  then show ?thesis by (simp add: add_repositories_def)
next
  case False
  obtain r st' where e:
    "add_repos_loop orc (repos cfg) (log INFO ''Adding repository(ies)...'' st) = (r, st')"
    by (cases "add_repos_loop orc (repos cfg) (log INFO ''Adding repository(ies)...'' st)")
  from add_repos_loop_isolated[OF assms e] False e show ?thesis
    by (simp add: add_repositories_def)
qed

section \<open>The two preference steps\<close>

lemma munki_skipped:
  assumes "\<not> truthy (repo_path cfg)
           \<or> \<not> path_exists env (resolve_repo_path env (the (repo_path cfg)))"
  shows "fst (configure_munki_repo orc env cfg st) = Return ()"
    and "calls (snd (configure_munki_repo orc env cfg st)) = calls st"
    and "drop (length (logs st)) (logs (snd (configure_munki_repo orc env cfg st))) \<noteq> []"
    and "\<forall>x \<in> set (drop (length (logs st)) (logs (snd (configure_munki_repo orc env cfg st)))).
           fst x = WARNING"
  using assms by (auto simp: configure_munki_repo_def Let_def)

lemma trust_returns:
  assumes "launchable orc trust_info_cmd"
  shows "\<exists>st'. configure_trust_info orc st = (Return (), st') \<and> calls st' = calls st @ [trust_info_cmd]"
proof -
  let ?st = "log INFO ''Configuring AutoPkg trust info preference...'' st"
  obtain x st1 where rc: "run_command orc trust_info_cmd True False ?st = (x, st1)"
    by (cases "run_command orc trust_info_cmd True False ?st")
  from run_command_calls[OF rc] have c1: "calls st1 = calls st @ [trust_info_cmd]" by simp
  have nx: "x \<noteq> SysExit n" for n
    using rc run_command_exit assms unfolding launchable_def by blast
  show ?thesis using rc c1 nx by (cases x) (auto simp: configure_trust_info_def)
qed

lemma trust_caught:
  assumes "primitive_fails (orc (calls st) trust_info_cmd)"
  shows "fst (configure_trust_info orc st) = Return ()"
    and "logs (snd (configure_trust_info orc st)) \<noteq> []"
    and "fst (last (logs (snd (configure_trust_info orc st)))) = WARNING"
proof -
  let ?st = "log INFO ''Configuring AutoPkg trust info preference...'' st"
  from assms have "primitive_fails (orc (calls ?st) trust_info_cmd)" by simp
  from run_command_check_fails[where orc=orc and st="?st" and c=trust_info_cmd and cap=False] this
  obtain e st1
    where rc: "run_command orc trust_info_cmd True False ?st = (Raise e, st1)" by blast
  then show "fst (configure_trust_info orc st) = Return ()"
    and "logs (snd (configure_trust_info orc st)) \<noteq> []"
    and "fst (last (logs (snd (configure_trust_info orc st)))) = WARNING"
    by (simp_all add: configure_trust_info_def)
qed

lemma munki_raises:
  assumes "truthy (repo_path cfg)"
    and "path_exists env (resolve_repo_path env (the (repo_path cfg)))"
    and "primitive_fails (orc (calls st) (munki_repo_cmd (resolve_repo_path env (the (repo_path cfg)))))"
  shows "\<exists>e st'. configure_munki_repo orc env cfg st = (Raise e, st')"
proof -
  let ?p = "resolve_repo_path env (the (repo_path cfg))"
  let ?st = "log INFO ''Configuring MUNKI_REPO'' st"
  from assms(3) have "primitive_fails (orc (calls ?st) (munki_repo_cmd ?p))" by simp
  from run_command_check_fails[where orc=orc and st="?st" and c="munki_repo_cmd ?p" and cap=False] this
  obtain e st1
    where rc: "run_command orc (munki_repo_cmd ?p) True False ?st = (Raise e, st1)" by blast
  with assms(1,2) show ?thesis by (simp add: configure_munki_repo_def Let_def)
qed

section \<open>Remote paths and their segments\<close>

lemma split_slash_nonempty [simp]: "split_slash s \<noteq> []"
  by (induction s) (auto split: list.splits)

lemma split_slash_append:
  "split_slash (a @ CHR ''/'' # b) = split_slash a @ split_slash b"
  by (induction a) (auto split: list.splits)

lemma split_slash_no_slash: "CHR ''/'' \<notin> set n \<Longrightarrow> split_slash n = [n]"
  by (induction n) auto

lemma segments_append_slash: "segments (a @ ''/'' @ b) = segments a @ segments b"
  by (simp add: segments_def split_slash_append)

lemma segments_valid: "valid_name n \<Longrightarrow> segments n = [n]"
  by (simp add: segments_def valid_name_def split_slash_no_slash)

lemma segments_snoc_slash: "segments (a @ ''/'') = segments a"
  using segments_append_slash[of a "[]"] by (simp add: segments_def)

lemma segments_replicate_slash: "segments (a @ replicate k CHR ''/'') = segments a"
proof (induction k arbitrary: a)
  case 0
  then show ?case by simp
next
  case (Suc k)
  have "a @ replicate (Suc k) CHR ''/'' = (a @ ''/'') @ replicate k CHR ''/''"
    by (simp add: replicate_app_Cons_same)
  then show ?case using Suc[of "a @ ''/''"] segments_snoc_slash by simp
qed

lemma rstrip_slash_decomp: "\<exists>k. s = rstrip_slash s @ replicate k CHR ''/''"
proof -
  have "rev s = takeWhile (\<lambda>c. c = CHR ''/'') (rev s) @ dropWhile (\<lambda>c. c = CHR ''/'') (rev s)"
    by simp
  then have "s = rev (dropWhile (\<lambda>c. c = CHR ''/'') (rev s)) @ rev (takeWhile (\<lambda>c. c = CHR ''/'') (rev s))"
    by (metis rev_append rev_rev_ident)
  moreover have "\<exists>k. rev (takeWhile (\<lambda>c. c = CHR ''/'') (rev s)) = replicate k CHR ''/''"
  proof -
    have "\<forall>x \<in> set (rev (takeWhile (\<lambda>c. c = CHR ''/'') (rev s))). x = CHR ''/''"
      by (auto dest: set_takeWhileD)
    then show ?thesis by (metis replicate_eqI)
  qed
  ultimately show ?thesis by (metis rstrip_slash_def)
qed

lemma segments_rstrip: "segments (rstrip_slash s) = segments s"
  using rstrip_slash_decomp[of s] segments_replicate_slash by metis

lemma segments_child:
  "valid_name item \<Longrightarrow> segments (rstrip_slash rd @ ''/'' @ item) = segments rd @ [item]"
  by (simp only: segments_append_slash segments_rstrip segments_valid)

section \<open>The walk as a list of actions\<close>

lemma ensure_parts_ops:
  "ensure_parts s cp parts = (r, s', tr) \<Longrightarrow> \<forall>x \<in> set tr. sftp_op (fst x)"
proof (induction s cp parts arbitrary: r s' tr rule: ensure_parts.induct)
  case (1 s current_path)
  then show ?case by simp
next
  case (2 s current_path part parts)
  show ?case
  proof (cases "part = []")
    case True
    with 2 show ?thesis by simp
  next
    case False
    let ?cp = "if current_path \<noteq> [] then current_path @ ''/'' @ part else ''/'' @ part"
    show ?thesis
    proof (cases "sftp_stat s ?cp")
      case None
      obtain r1 s1 t1 where e: "ensure_parts s ?cp parts = (r1, s1, t1)"
        by (cases "ensure_parts s ?cp parts") auto
      from "2.IH"(2)[OF False refl None e] have "\<forall>x \<in> set t1. sftp_op (fst x)" .
      with "2.prems" False None e show ?thesis by (fastforce simp: Let_def)
    next
      case (Some e)
      show ?thesis
      proof (cases "e = FileNotFoundError")
        case F: False
        with "2.prems" False Some show ?thesis by (auto simp: Let_def)
      next
        case T: True
        obtain m s1 where mk: "sftp_mkdir s ?cp = (m, s1)" by (cases "sftp_mkdir s ?cp") auto
        obtain r2 s2 t2 where e2: "ensure_parts s1 ?cp parts = (r2, s2, t2)"
          by (cases "ensure_parts s1 ?cp parts") auto
        from "2.IH"(3)[OF False refl Some T mk[symmetric] e2]
        have "\<forall>x \<in> set t2. sftp_op (fst x)" .
        with "2.prems" False Some T mk e2 show ?thesis by (fastforce simp: Let_def)
      qed
    qed
  qed
qed

lemma ensure_ops:
  "ensure_remote_directory s rd = (r, s', tr) \<Longrightarrow> \<forall>x \<in> set tr. sftp_op (fst x)"
  by (auto simp: ensure_remote_directory_def split: option.splits if_splits prod.splits
           dest!: ensure_parts_ops)


lemma exec_append:
  "exec s (xs @ ys) =
     (case exec s xs of
        (Some e, s1, t1) \<Rightarrow> (Some e, s1, t1)
      | (None, s1, t1) \<Rightarrow> (case exec s1 ys of (r, s2, t2) \<Rightarrow> (r, s2, t1 @ t2)))"
  by (induction xs arbitrary: s) (auto split: prod.splits option.splits)

lemma upload_is_exec:
  "upload_directory s n rd = exec s (plan n rd)"
  "upload_items s items rd = exec s (plan_items items rd)"
proof (induction s n rd and s items rd rule: upload_directory_upload_items.induct)
  case (1 s local_dir remote_dir)
  then show ?case
    by (cases local_dir) (auto split: prod.splits option.splits)
next
  case (2 s remote_dir)
  then show ?case by simp
next
  case (3 s item n items remote_dir)
  then show ?case
    by (cases n) (auto simp: exec_append Let_def split: prod.splits option.splits)
qed

declare upload_directory.simps [simp del]

section \<open>The trace of an upload session\<close>

lemma act_ops: "act s a = (r, s', tr) \<Longrightarrow> \<forall>x \<in> set tr. sftp_op (fst x)"
  by (cases a) (auto split: prod.splits dest!: ensure_ops)

lemma exec_ops: "exec s as = (r, s', tr) \<Longrightarrow> \<forall>x \<in> set tr. sftp_op (fst x)"
proof (induction as arbitrary: s r s' tr)
  case Nil
  then show ?case by simp
next
  case (Cons a as)
  obtain r1 s1 t1 where a: "act s a = (r1, s1, t1)" by (cases "act s a") auto
  obtain r2 s2 t2 where e: "exec s1 as = (r2, s2, t2)" by (cases "exec s1 as") auto
  from act_ops[OF a] Cons.IH[OF e] Cons.prems a e show ?case
    by (cases r1) fastforce+
qed

lemma upload_directory_ops:
  "upload_directory s n rd = (r, s', tr) \<Longrightarrow> \<forall>x \<in> set tr. sftp_op (fst x)"
  using exec_ops[of s "plan n rd" r s' tr] by (simp only: upload_is_exec) blast

lemma sftp_op_not_closing: "sftp_op x \<Longrightarrow> \<not> closing x \<and> x \<noteq> OpenSftp \<and> (\<forall>h p. x \<noteq> Connect h p)"
  by (cases x) auto

lemma upload_try_shape:
  assumes "upload_try nw tree host port user pw = (r, tp, sf, s', tr)"
  shows "(\<forall>x \<in> set tr. \<not> closing (fst x))
       \<and> (tp \<longleftrightarrow> (\<exists>h p. (Connect h p, None) \<in> set tr))
       \<and> (sf \<longleftrightarrow> (OpenSftp, None) \<in> set tr)"
proof (cases "connect_raises nw = None \<and> start_client_raises nw = None
          \<and> auth_password_raises nw = None \<and> open_sftp_raises nw = None")
  case False
  with assms show ?thesis
    by (auto simp: upload_try_def split: option.splits)
next
  case True
  obtain r1 s1 t1 where u: "upload_directory (server nw) tree ''/'' = (r1, s1, t1)"
    by (cases "upload_directory (server nw) tree ''/''") auto
  from upload_directory_ops[OF u] have "\<forall>x \<in> set t1. sftp_op (fst x)" .
  then have n: "\<forall>x \<in> set t1. \<not> closing (fst x) \<and> fst x \<noteq> OpenSftp \<and> (\<forall>h p. fst x \<noteq> Connect h p)"
    using sftp_op_not_closing by blast
  from assms True u have tr: "tr = [(Connect host port, None), (StartClient, None),
      (AuthPassword user pw, None), (OpenSftp, None)] @ t1" and "tp" and "sf"
    by (auto simp: upload_try_def)
  with n show ?thesis by fastforce
qed


lemma upload_finally_closing: "\<forall>x \<in> set (upload_finally nw tp sf). closing (fst x)"
  by (auto simp: upload_finally_def)

lemma upload_try_close_indep:
  "upload_try (nw\<lparr>close_sftp_raises := a, close_transport_raises := b\<rparr>) tree host port user pw
     = upload_try nw tree host port user pw"
  by (auto simp: upload_try_def split: option.splits)

lemma upload_repo_cases:
  "((\<exists>lg. upload_repo paramiko env nw cfg = (SysExit 1, lg, server nw, []))
    \<or> (\<exists>tree r tp sf s' tr lg.
          upload_try nw tree (the (sftp_host cfg))
             (case sftp_port cfg of None \<Rightarrow> 22 | Some n \<Rightarrow> n)
             (the (sftp_user cfg)) (the (sftp_password cfg)) = (r, tp, sf, s', tr)
          \<and> upload_repo paramiko env nw cfg
              = ((case r of None \<Rightarrow> Return () | Some e \<Rightarrow> SysExit 1), lg, s',
                 tr @ upload_finally nw tp sf)))"
proof -
  let ?p = "resolve_repo_path env (the (repo_path cfg))"
  show ?thesis
  proof (cases "paramiko \<and> truthy (sftp_host cfg) \<and> truthy (sftp_user cfg)
                 \<and> truthy (sftp_password cfg) \<and> truthy (repo_path cfg) \<and> lfs env ?p \<noteq> None")
    case False
    then show ?thesis by (auto simp: upload_repo_def Let_def split: option.splits)
  next
    case True
    then obtain tree where t: "lfs env ?p = Some tree" by auto
    obtain r tp sf s' tr where u: "upload_try nw tree (the (sftp_host cfg))
             (case sftp_port cfg of None \<Rightarrow> 22 | Some n \<Rightarrow> n)
             (the (sftp_user cfg)) (the (sftp_password cfg)) = (r, tp, sf, s', tr)"
      by (metis prod_cases5)
    have "upload_repo paramiko env nw cfg
            = ((case r of None \<Rightarrow> Return () | Some e \<Rightarrow> SysExit 1),
               (case r of None \<Rightarrow> [(INFO, ''Repository upload completed successfully'')]
                 | Some e \<Rightarrow> [(ERROR, fst (upload_handler e))]),
               s', tr @ upload_finally nw tp sf)"
      using True t u by (cases r) (simp_all add: upload_repo_def Let_def upload_handler_def)
    with u show ?thesis by blast
  qed
qed


section \<open>Ensuring a remote directory\<close>

lemma sftp_mkdir_frame:
  "sftp_mkdir s p = (m, s') \<Longrightarrow>
     rfiles s' = rfiles s \<and> faults s' = faults s \<and> rdirs s \<subseteq> rdirs s'"
  by (auto simp: sftp_mkdir_def split: option.splits if_splits)

lemma present_mono:
  "rfiles s' = rfiles s \<Longrightarrow> rdirs s \<subseteq> rdirs s' \<Longrightarrow> present s q \<Longrightarrow> present s' q"
  by (auto simp: present_def is_dir_def)

lemma ensure_parts_frame:
  "ensure_parts s cp parts = (r, s', tr) \<Longrightarrow>
     rfiles s' = rfiles s \<and> faults s' = faults s \<and> rdirs s \<subseteq> rdirs s'"
proof (induction parts arbitrary: s cp r s' tr)
  case Nil
  then show ?case by simp
next
  case (Cons part parts)
  show ?case
  proof (cases "part = []")
    case True
    with Cons show ?thesis by simp
  next
    case False
    let ?cp = "if cp \<noteq> [] then cp @ ''/'' @ part else ''/'' @ part"
    obtain m s1 where mk: "sftp_mkdir s ?cp = (m, s1)" by (cases "sftp_mkdir s ?cp") auto
    note f = sftp_mkdir_frame[OF mk]
    obtain r1 s2 t1 where e1: "ensure_parts s ?cp parts = (r1, s2, t1)"
      by (cases "ensure_parts s ?cp parts") auto
    obtain r2 s3 t2 where e2: "ensure_parts s1 ?cp parts = (r2, s3, t2)"
      by (cases "ensure_parts s1 ?cp parts") auto
    from Cons.IH[OF e1] Cons.IH[OF e2] f Cons.prems False mk e1 e2 show ?thesis
      by (auto simp: Let_def split: option.splits if_splits)
  qed
qed

lemma ensure_frame:
  "ensure_remote_directory s rd = (r, s', tr) \<Longrightarrow>
     rfiles s' = rfiles s \<and> faults s' = faults s \<and> rdirs s \<subseteq> rdirs s'"
  by (auto simp: ensure_remote_directory_def split: option.splits if_splits prod.splits
           dest!: ensure_parts_frame)

lemma ensure_parts_returns:
  "\<forall>p e. faults s (Stat p) = Some e \<longrightarrow> e = FileNotFoundError \<Longrightarrow>
     fst (ensure_parts s cp parts) = None"
proof (induction parts arbitrary: s cp)
  case Nil
  then show ?case by simp
next
  case (Cons part parts)
  show ?case
  proof (cases "part = []")
    case True
    with Cons show ?thesis by simp
  next
    case False
    let ?cp = "if cp \<noteq> [] then cp @ ''/'' @ part else ''/'' @ part"
    obtain m s1 where mk: "sftp_mkdir s ?cp = (m, s1)" by (cases "sftp_mkdir s ?cp") auto
    from sftp_mkdir_frame[OF mk] Cons.prems
    have f1: "\<forall>p e. faults s1 (Stat p) = Some e \<longrightarrow> e = FileNotFoundError" by simp
    have st: "sftp_stat s ?cp = None \<or> sftp_stat s ?cp = Some FileNotFoundError"
      using Cons.prems by (auto simp: sftp_stat_def split: option.splits)
    from Cons.IH[OF Cons.prems, of ?cp] Cons.IH[OF f1, of ?cp] st False mk show ?thesis
      by (auto simp: Let_def split: prod.splits)
  qed
qed

lemma ensure_returns:
  "\<forall>p e. faults s (Stat p) = Some e \<longrightarrow> e = FileNotFoundError \<Longrightarrow>
     fst (ensure_remote_directory s rd) = None"
proof -
  assume a: "\<forall>p e. faults s (Stat p) = Some e \<longrightarrow> e = FileNotFoundError"
  have st: "sftp_stat s rd = None \<or> sftp_stat s rd = Some FileNotFoundError"
    using a by (auto simp: sftp_stat_def split: option.splits)
  from ensure_parts_returns[OF a, of "[]" "split_slash (rstrip_slash rd)"] st show ?thesis
    by (auto simp: ensure_remote_directory_def split: prod.splits)
qed

lemma ensure_parts_skips:
  "\<forall>p. faults s (Stat p) = None \<Longrightarrow> ensure_parts s cp parts = (r, s', tr) \<Longrightarrow>
     \<forall>p m. (Mkdir p, m) \<in> set tr \<longrightarrow> \<not> present s (segments p)"
proof (induction parts arbitrary: s cp r s' tr)
  case Nil
  then show ?case by simp
next
  case (Cons part parts)
  show ?case
  proof (cases "part = []")
    case True
    with Cons show ?thesis by simp
  next
    case False
    let ?cp = "if cp \<noteq> [] then cp @ ''/'' @ part else ''/'' @ part"
    show ?thesis
    proof (cases "sftp_stat s ?cp")
      case None
      obtain r1 s2 t1 where e1: "ensure_parts s ?cp parts = (r1, s2, t1)"
        by (cases "ensure_parts s ?cp parts") auto
      from Cons.IH[OF Cons.prems(1) e1] Cons.prems(2) False None e1 show ?thesis
        by (fastforce simp: Let_def)
    next
      case (Some e)
      with Cons.prems(1) have np: "\<not> present s (segments ?cp)" and e: "e = FileNotFoundError"
        by (auto simp: sftp_stat_def split: if_splits)
      obtain m s1 where mk: "sftp_mkdir s ?cp = (m, s1)" by (cases "sftp_mkdir s ?cp") auto
      note f = sftp_mkdir_frame[OF mk]
      with Cons.prems(1) have f1: "\<forall>p. faults s1 (Stat p) = None" by simp
      obtain r2 s3 t2 where e2: "ensure_parts s1 ?cp parts = (r2, s3, t2)"
        by (cases "ensure_parts s1 ?cp parts") auto
      from Cons.IH[OF f1 e2]
      have "\<forall>p m. (Mkdir p, m) \<in> set t2 \<longrightarrow> \<not> present s1 (segments p)" .
      with present_mono[of s1 s] f
      have "\<forall>p m. (Mkdir p, m) \<in> set t2 \<longrightarrow> \<not> present s (segments p)" by blast
      with Cons.prems(2) False Some e mk e2 np show ?thesis
        by (fastforce simp: Let_def)
    qed
  qed
qed

lemma ensure_skips:
  assumes a: "\<forall>p. faults s (Stat p) = None"
    and e: "ensure_remote_directory s rd = (r, s', tr)"
  shows "\<forall>p m. (Mkdir p, m) \<in> set tr \<longrightarrow> \<not> present s (segments p)"
proof (cases "sftp_stat s rd")
  case None
  with e show ?thesis by (auto simp: ensure_remote_directory_def)
next
  case (Some x)
  with a have x: "x = FileNotFoundError"
    by (auto simp: sftp_stat_def split: if_splits)
  obtain r1 s1 t1 where p: "ensure_parts s [] (split_slash (rstrip_slash rd)) = (r1, s1, t1)"
    by (cases "ensure_parts s [] (split_slash (rstrip_slash rd))") auto
  from ensure_parts_skips[OF a p]
  have "\<forall>p m. (Mkdir p, m) \<in> set t1 \<longrightarrow> \<not> present s (segments p)" .
  moreover from e Some x p have "tr = (Stat rd, Some x) # t1"
    by (simp add: ensure_remote_directory_def)
  ultimately show ?thesis by auto
qed

section \<open>Executing the actions of the walk\<close>

lemma puts_append [simp]: "puts (xs @ ys) = puts xs @ puts ys"
  by (induction xs rule: puts.induct) auto

lemma ensure_parts_entries:
  "ensure_parts s cp parts = (r, s', tr) \<Longrightarrow>
     \<forall>x \<in> set tr. \<exists>p. fst x = Stat p \<or> fst x = Mkdir p"
proof (induction parts arbitrary: s cp r s' tr)
  case Nil
  then show ?case by simp
next
  case (Cons part parts)
  show ?case
  proof (cases "part = []")
    case True
    with Cons show ?thesis by simp
  next
    case False
    let ?cp = "if cp \<noteq> [] then cp @ ''/'' @ part else ''/'' @ part"
    obtain m s1 where mk: "sftp_mkdir s ?cp = (m, s1)" by (cases "sftp_mkdir s ?cp") auto
    obtain r1 s2 t1 where e1: "ensure_parts s ?cp parts = (r1, s2, t1)"
      by (cases "ensure_parts s ?cp parts") auto
    obtain r2 s3 t2 where e2: "ensure_parts s1 ?cp parts = (r2, s3, t2)"
      by (cases "ensure_parts s1 ?cp parts") auto
    from Cons.prems False mk e1 e2
    have "tr = (Stat ?cp, None) # t1
        \<or> (\<exists>e. tr = (Stat ?cp, Some e) # (Mkdir ?cp, m) # t2)
        \<or> (\<exists>e. tr = [(Stat ?cp, Some e)])"
      by (auto simp: Let_def split: option.splits if_splits)
    with Cons.IH[OF e1] Cons.IH[OF e2] show ?thesis by fastforce
  qed
qed

lemma ensure_entries:
  assumes "ensure_remote_directory s rd = (r, s', tr)"
  shows "\<forall>x \<in> set tr. \<exists>p. fst x = Stat p \<or> fst x = Mkdir p"
proof -
  obtain r1 s1 t1 where p: "ensure_parts s [] (split_slash (rstrip_slash rd)) = (r1, s1, t1)"
    by (cases "ensure_parts s [] (split_slash (rstrip_slash rd))") auto
  from assms p have "tr = [(Stat rd, None)] \<or> (\<exists>e. tr = (Stat rd, Some e) # t1)
      \<or> (\<exists>e. tr = [(Stat rd, Some e)])"
    by (auto simp: ensure_remote_directory_def split: option.splits if_splits)
  with ensure_parts_entries[OF p] show ?thesis by fastforce
qed

lemma ensure_no_put:
  "ensure_remote_directory s rd = (r, s', tr) \<Longrightarrow> (Put p c, x) \<notin> set tr"
  using ensure_entries by fastforce

lemma ensure_no_failed_put:
  "ensure_remote_directory s rd = (r, s', tr) \<Longrightarrow> \<forall>x \<in> set tr. \<not> failed_put x"
proof
  fix x assume e: "ensure_remote_directory s rd = (r, s', tr)" and x: "x \<in> set tr"
  from ensure_entries[OF e] x obtain p where "fst x = Stat p \<or> fst x = Mkdir p" by blast
  then show "\<not> failed_put x" by (cases x) auto
qed

lemma sftp_put_frame:
  "sftp_put s c p = (x, s') \<Longrightarrow>
     faults s' = faults s \<and> rdirs s' = rdirs s
     \<and> (\<forall>k. k \<noteq> segments p \<longrightarrow> rfiles s' k = rfiles s k)
     \<and> (x = None \<longrightarrow> rfiles s' (segments p) = Some c)
     \<and> (x \<noteq> None \<longrightarrow> s' = s)"
  by (auto simp: sftp_put_def split: option.splits if_splits)

lemma act_cases:
  assumes "act s a = (r, s', tr)"
  obtains (ensure) rd where "a = Ensure rd" "ensure_remote_directory s rd = (r, s', tr)"
  | (put) rp c where "a = PutFile rp c" "sftp_put s c rp = (r, s')" "tr = [(Put rp c, r)]"
  | (listdir) "a = ListDirFails" "r = Some NotADirectoryError" "s' = s" "tr = []"
  using assms by (cases a) (auto split: prod.splits)

lemma exec_cons_cases:
  assumes "exec s (a # as) = (r, s', tr)"
  obtains (stop) e where "act s a = (Some e, s', tr)" "r = Some e"
  | (go) s1 t1 t2 where "act s a = (None, s1, t1)" "exec s1 as = (r, s', t2)" "tr = t1 @ t2"
  using assms by (auto split: prod.splits option.splits)

lemma act_frame:
  assumes "act s a = (r, s', tr)"
  shows "faults s' = faults s \<and> rdirs s \<subseteq> rdirs s'
       \<and> (\<forall>k. k \<notin> (\<lambda>y. segments (fst y)) ` set (puts [a]) \<longrightarrow> rfiles s' k = rfiles s k)"
  using assms
proof (cases rule: act_cases)
  case (ensure rd)
  from ensure_frame[OF ensure(2)] show ?thesis by simp
next
  case (put rp c)
  from sftp_put_frame[OF put(2)] put(1) show ?thesis by auto
next
  case listdir
  then show ?thesis by simp
qed

lemma exec_frame:
  "exec s as = (r, s', tr) \<Longrightarrow>
     faults s' = faults s \<and> rdirs s \<subseteq> rdirs s'
     \<and> (\<forall>k. k \<notin> (\<lambda>y. segments (fst y)) ` set (puts as) \<longrightarrow> rfiles s' k = rfiles s k)"
proof (induction as arbitrary: s r s' tr)
  case Nil
  then show ?case by simp
next
  case (Cons a as)
  have pa: "set (puts [a]) \<subseteq> set (puts (a # as))" "set (puts as) \<subseteq> set (puts (a # as))"
    by (cases a; auto)+
  from Cons.prems show ?case
  proof (cases rule: exec_cons_cases)
    case (stop e)
    from act_frame[OF stop(1)] pa(1) show ?thesis by blast
  next
    case (go s1 t1 t2)
    from act_frame[OF go(1)] Cons.IH[OF go(2)] pa show ?thesis
      by (metis (no_types, lifting) image_mono subset_iff subset_trans)
  qed
qed

lemma act_trace_clean:
  "act s a = (None, s', tr) \<Longrightarrow> \<forall>x \<in> set tr. \<not> failed_put x"
  by (erule act_cases) (auto dest: ensure_no_failed_put)

lemma exec_failed_put_last:
  "exec s as = (r, s', tr) \<Longrightarrow>
     (\<forall>x \<in> set (butlast tr). \<not> failed_put x)
     \<and> (tr \<noteq> [] \<longrightarrow> failed_put (last tr) \<longrightarrow> snd (last tr) = r)
     \<and> (r = None \<longrightarrow> (\<forall>x \<in> set tr. \<not> failed_put x))"
proof (induction as arbitrary: s r s' tr)
  case Nil
  then show ?case by simp
next
  case (Cons a as)
  from Cons.prems show ?case
  proof (cases rule: exec_cons_cases)
    case (stop e)
    from stop(1) show ?thesis
    proof (cases rule: act_cases)
      case (ensure rd)
      from ensure_no_failed_put[OF ensure(2)] stop(2) show ?thesis
        by (auto dest: in_set_butlastD)
    next
      case (put rp c)
      with stop(2) show ?thesis by simp
    next
      case listdir
      then show ?thesis by simp
    qed
  next
    case (go s1 t1 t2)
    from act_trace_clean[OF go(1)] have c: "\<forall>x \<in> set t1. \<not> failed_put x" .
    from Cons.IH[OF go(2)] have i: "\<forall>x \<in> set (butlast t2). \<not> failed_put x"
      "t2 \<noteq> [] \<longrightarrow> failed_put (last t2) \<longrightarrow> snd (last t2) = r"
      "r = None \<longrightarrow> (\<forall>x \<in> set t2. \<not> failed_put x)" by blast+
    show ?thesis
    proof (cases "t2 = []")
      case True
      with c go(3) i show ?thesis by (auto dest: in_set_butlastD)
    next
      case False
      with c go(3) i show ?thesis by (auto simp: butlast_append)
    qed
  qed
qed

lemma exec_trace_puts:
  "exec s as = (r, s', tr) \<Longrightarrow> (Put p c, x) \<in> set tr \<Longrightarrow> (p, c) \<in> set (puts as)"
proof (induction as arbitrary: s r s' tr)
  case Nil
  then show ?case by simp
next
  case (Cons a as)
  have sub: "set (puts as) \<subseteq> set (puts (a # as))" by (cases a) auto
  from Cons.prems(1) show ?case
  proof (cases rule: exec_cons_cases)
    case (stop e)
    from stop(1) Cons.prems(2) show ?thesis
      by (cases rule: act_cases) (auto dest: ensure_no_put)
  next
    case (go s1 t1 t2)
    from Cons.prems(2) go(3) consider "(Put p c, x) \<in> set t1" | "(Put p c, x) \<in> set t2" by auto
    then show ?thesis
    proof cases
      case 1
      from go(1) 1 show ?thesis by (cases rule: act_cases) (auto dest: ensure_no_put)
    next
      case 2
      from Cons.IH[OF go(2) 2] sub show ?thesis by blast
    qed
  qed
qed

lemma exec_puts_remain:
  "distinct (map (\<lambda>y. segments (fst y)) (puts as)) \<Longrightarrow> exec s as = (r, s', tr) \<Longrightarrow>
     (Put p c, None) \<in> set tr \<Longrightarrow> rfiles s' (segments p) = Some c"
proof (induction as arbitrary: s r s' tr)
  case Nil
  then show ?case by simp
next
  case (Cons a as)
  have d: "distinct (map (\<lambda>y. segments (fst y)) (puts as))"
    using Cons.prems(1) by (cases a) auto
  from Cons.prems(2) show ?case
  proof (cases rule: exec_cons_cases)
    case (stop e)
    from stop(1) Cons.prems(3) show ?thesis
      by (cases rule: act_cases) (auto dest: ensure_no_put)
  next
    case (go s1 t1 t2)
    from Cons.prems(3) go(3) consider "(Put p c, None) \<in> set t1" | "(Put p c, None) \<in> set t2"
      by auto
    then show ?thesis
    proof cases
      case 1
      from go(1) show ?thesis
      proof (cases rule: act_cases)
        case (ensure rd)
        with 1 show ?thesis by (auto dest: ensure_no_put)
      next
        case (put rp c0)
        with 1 have eq: "rp = p" "c0 = c" by auto
        from sftp_put_frame[OF put(2)] eq have h: "rfiles s1 (segments p) = Some c" by simp
        from Cons.prems(1) put(1) eq
        have "segments p \<notin> (\<lambda>y. segments (fst y)) ` set (puts as)" by auto
        with exec_frame[OF go(2)] h show ?thesis by simp
      next
        case listdir
        with 1 show ?thesis by simp
      qed
    next
      case 2
      from Cons.IH[OF d go(2) 2] show ?thesis .
    qed
  qed
qed

lemma exec_all_put:
  "exec s as = (None, s', tr) \<Longrightarrow> (rp, c) \<in> set (puts as) \<Longrightarrow> (Put rp c, None) \<in> set tr"
proof (induction as arbitrary: s s' tr)
  case Nil
  then show ?case by simp
next
  case (Cons a as)
  from Cons.prems(1) show ?case
  proof (cases rule: exec_cons_cases)
    case (stop e)
    then show ?thesis by simp
  next
    case (go s1 t1 t2)
    show ?thesis
    proof (cases "(rp, c) \<in> set (puts as)")
      case True
      from Cons.IH[OF go(2) True] go(3) show ?thesis by simp
    next
      case False
      with Cons.prems(2) have a: "a = PutFile rp c" by (cases a) auto
      from go(1) a go(3) show ?thesis by (auto split: prod.splits)
    qed
  qed
qed

lemma exec_fail_origin:
  "\<forall>p e. faults s (Stat p) = Some e \<longrightarrow> e = FileNotFoundError \<Longrightarrow>
   exec s as = (Some e, s', tr) \<Longrightarrow>
     e = NotADirectoryError \<or> (tr \<noteq> [] \<and> (\<exists>p c. last tr = (Put p c, Some e)))"
proof (induction as arbitrary: s s' tr)
  case Nil
  then show ?case by simp
next
  case (Cons a as)
  from Cons.prems(2) show ?case
  proof (cases rule: exec_cons_cases)
    case (stop e')
    from stop(1) show ?thesis
    proof (cases rule: act_cases)
      case (ensure rd)
      with ensure_returns[OF Cons.prems(1), of rd] show ?thesis by simp
    next
      case (put rp c)
      with stop(2) show ?thesis by simp
    next
      case listdir
      with stop(2) show ?thesis by simp
    qed
  next
    case (go s1 t1 t2)
    from act_frame[OF go(1)] Cons.prems(1)
    have "\<forall>p e. faults s1 (Stat p) = Some e \<longrightarrow> e = FileNotFoundError" by simp
    from Cons.IH[OF this go(2)] go(3) show ?thesis by auto
  qed
qed

section \<open>The transfers of a well-formed tree\<close>

lemma distinct_map_cons: "distinct xs \<Longrightarrow> distinct (map ((#) a) xs)"
  by (simp add: distinct_map inj_on_def)

lemma distinct_map_prepend: "distinct xs \<Longrightarrow> distinct (map ((@) p) xs)"
  by (simp add: distinct_map inj_on_def)

lemma plan_puts_keys:
  "wf_node n \<Longrightarrow>
     map (\<lambda>y. (segments (fst y), snd y)) (puts (plan n R))
       = (case n of File c \<Rightarrow> []
          | Dir items \<Rightarrow> map (\<lambda>(q, c). (segments R @ q, c)) (files_of n))"
  "wf_items items \<Longrightarrow>
     map (\<lambda>y. (segments (fst y), snd y)) (puts (plan_items items R))
       = map (\<lambda>(q, c). (segments R @ q, c)) (files_of_items items)"
proof (induction n R and items R rule: plan_plan_items.induct)
  case (1 c remote_dir)
  then show ?case by simp
next
  case (2 items remote_dir)
  then show ?case by simp
next
  case (3 remote_dir)
  then show ?case by simp
next
  case (4 item n items remote_dir)
  from "4.prems" have v: "valid_name item" and wn: "wf_node n" and wi: "wf_items items"
    by simp_all
  note sc = segments_child[OF v, of remote_dir]
  show ?case
  proof (cases n)
    case (File c)
    with "4.IH"(2)[OF wi] sc show ?thesis by simp
  next
    case (Dir sub)
    from "4.IH"(1)[OF Dir wn] Dir
    have "map (\<lambda>y. (segments (fst y), snd y)) (puts (plan n (rstrip_slash remote_dir @ ''/'' @ item)))
          = map (\<lambda>(q, c). (segments (rstrip_slash remote_dir @ ''/'' @ item) @ q, c)) (files_of n)"
      by simp
    with "4.IH"(2)[OF wi] sc Dir show ?thesis
      by (simp add: case_prod_unfold comp_def)
  qed
qed

lemma files_of_keys:
  "wf_node n \<Longrightarrow> distinct (map fst (files_of n))"
  "wf_items items \<Longrightarrow>
     distinct (map fst (files_of_items items))
     \<and> (\<forall>k \<in> set (map fst (files_of_items items)). k \<noteq> [] \<and> hd k \<in> fst ` set items)"
proof (induction n and items rule: wf_node_wf_items.induct)
  case (1 c)
  then show ?case by simp
next
  case (2 items)
  then show ?case by simp
next
  case 3
  then show ?case by simp
next
  case (4 item n items)
  from "4.prems" have ni: "item \<notin> fst ` set items" and wn: "wf_node n" and wi: "wf_items items"
    by simp_all
  have m: "map fst (map (\<lambda>(q, c). (item # q, c)) (files_of n)) = map ((#) item) (map fst (files_of n))"
    by (simp add: case_prod_unfold comp_def)
  from "4.IH"(1)[OF wn] have d1: "distinct (map ((#) item) (map fst (files_of n)))"
    by (rule distinct_map_cons)
  from "4.IH"(2)[OF wi] have d2: "distinct (map fst (files_of_items items))"
    and h2: "\<forall>k \<in> set (map fst (files_of_items items)). k \<noteq> [] \<and> hd k \<in> fst ` set items"
    by blast+
  have dis: "set (map ((#) item) (map fst (files_of n))) \<inter> set (map fst (files_of_items items)) = {}"
  proof (rule ccontr)
    assume "\<not> ?thesis"
    then obtain k where k1: "k \<in> set (map ((#) item) (map fst (files_of n)))"
      and k2: "k \<in> set (map fst (files_of_items items))" by blast
    from k1 have "hd k = item" by auto
    with h2 k2 ni show False by blast
  qed
  have h1: "\<forall>k \<in> set (map ((#) item) (map fst (files_of n))). k \<noteq> [] \<and> hd k = item" by auto
  let ?A = "map ((#) item) (map fst (files_of n))"
  let ?B = "map fst (files_of_items items)"
  have eq: "map fst (files_of_items ((item, n) # items)) = ?A @ ?B"
    using m by simp
  have D: "distinct (?A @ ?B)"
    by (simp only: distinct_append d1 d2 dis)
  have H: "k \<noteq> [] \<and> hd k \<in> fst ` set ((item, n) # items)" if "k \<in> set (?A @ ?B)" for k
  proof -
    from that consider "k \<in> set ?A" | "k \<in> set ?B" by (simp only: set_append) blast
    then show ?thesis
    proof cases
      case 1
      with h1 show ?thesis by auto
    next
      case 2
      with h2 show ?thesis by auto
    qed
  qed
  from D H show ?case by (simp only: eq) blast
qed

lemma plan_puts_distinct:
  assumes "wf_node n"
  shows "distinct (map (\<lambda>y. segments (fst y)) (puts (plan n R)))"
proof (cases n)
  case (File c)
  then show ?thesis by simp
next
  case (Dir items)
  have "map (\<lambda>y. segments (fst y)) (puts (plan n R))
          = map fst (map (\<lambda>y. (segments (fst y), snd y)) (puts (plan n R)))"
    by (simp add: comp_def)
  also have "\<dots> = map fst (map (\<lambda>(q, c). (segments R @ q, c)) (files_of n))"
    using plan_puts_keys(1)[OF assms, of R] Dir by simp
  also have "\<dots> = map ((@) (segments R)) (map fst (files_of n))"
    by (simp add: case_prod_unfold comp_def)
  finally show ?thesis
    using distinct_map_prepend[OF files_of_keys(1)[OF assms], of "segments R"] by simp
qed

lemma upload_exec_triple:
  "exec s (plan n R)
     = (fst (upload_directory s n R), fst (snd (upload_directory s n R)),
        snd (snd (upload_directory s n R)))"
  by (simp only: upload_is_exec prod.collapse)

lemma in_set_not_butlast: "x \<in> set xs \<Longrightarrow> x \<notin> set (butlast xs) \<Longrightarrow> last xs = x"
  by (induction xs) (auto split: if_splits)

section \<open>Directories are ensured before their children\<close>

lemma dirs_first_mono: "dirs_first E tr \<Longrightarrow> E \<subseteq> E' \<Longrightarrow> dirs_first E' tr"
proof (induction tr arbitrary: E E')
  case Nil
  then show ?case by simp
next
  case (Cons x tr)
  from Cons.prems have "dirs_first (E \<union> ensured_by x) tr" by simp
  from Cons.IH[OF this, of "E' \<union> ensured_by x"] Cons.prems show ?case
    by (auto split: option.splits)
qed

lemma dirs_first_append:
  "dirs_first E (t1 @ t2) = (dirs_first E t1 \<and> dirs_first (E \<union> \<Union> (ensured_by ` set t1)) t2)"
proof (induction t1 arbitrary: E)
  case Nil
  then show ?case by simp
next
  case (Cons x t1)
  have "E \<union> ensured_by x \<union> \<Union> (ensured_by ` set t1) = E \<union> \<Union> (ensured_by ` set (x # t1))"
    by auto
  with Cons[of "E \<union> ensured_by x"] show ?case by auto
qed

lemma plan_ok_mono: "plan_ok E as \<Longrightarrow> E \<subseteq> E' \<Longrightarrow> plan_ok E' as"
proof (induction E as arbitrary: E' rule: plan_ok.induct)
  case (1 E)
  then show ?case by simp
next
  case (2 E rd as)
  from "2.IH"[of "insert (segments rd) E'"] "2.prems" show ?case by auto
next
  case (3 E rp c as)
  then show ?case by auto
next
  case (4 E as)
  then show ?case by auto
qed

lemma plan_ok_append: "plan_ok E xs \<Longrightarrow> plan_ok E ys \<Longrightarrow> plan_ok E (xs @ ys)"
proof (induction E xs rule: plan_ok.induct)
  case (1 E)
  then show ?case by simp
next
  case (2 E rd as)
  from "2.prems"(2) have "plan_ok (insert (segments rd) E) ys"
    by (rule plan_ok_mono) auto
  with 2 show ?case by simp
next
  case (3 E rp c as)
  then show ?case by simp
next
  case (4 E as)
  then show ?case by simp
qed

lemma plan_ok_plan:
  "wf_node n \<Longrightarrow> plan_ok E (plan n R)"
  "wf_items items \<Longrightarrow> segments R \<in> E \<Longrightarrow> plan_ok E (plan_items items R)"
proof (induction n R and items R arbitrary: E and E rule: plan_plan_items.induct)
  case (1 c remote_dir)
  then show ?case by simp
next
  case (2 items remote_dir)
  from "2.IH"[of "insert (segments remote_dir) E"] "2.prems" show ?case by simp
next
  case (3 remote_dir)
  then show ?case by simp
next
  case (4 item n items remote_dir)
  from "4.prems" have v: "valid_name item" and wn: "wf_node n" and wi: "wf_items items"
    by simp_all
  note sc = segments_child[OF v, of remote_dir]
  have rest: "plan_ok E (plan_items items remote_dir)"
    using "4.IH"(2)[OF wi "4.prems"(2)] .
  show ?case
  proof (cases n)
    case (File c)
    with sc "4.prems"(2) rest show ?thesis by simp
  next
    case (Dir sub)
    from "4.IH"(1)[OF Dir wn, of E]
    have a: "plan_ok E (plan n (rstrip_slash remote_dir @ ''/'' @ item))" .
    from plan_ok_append[OF a rest] Dir show ?thesis by simp
  qed
qed


lemma split_slash_parts: "\<forall>w \<in> set (split_slash s). CHR ''/'' \<notin> set w"
  by (induction s) (auto split: list.splits)

lemma segments_next:
  assumes "part \<noteq> []" and "CHR ''/'' \<notin> set part"
  shows "segments (if cp \<noteq> [] then cp @ ''/'' @ part else ''/'' @ part) = segments cp @ [part]"
proof -
  from assms have v: "valid_name part" by (simp add: valid_name_def)
  have e: "segments [] = []" by (simp add: segments_def)
  have "segments (cp @ ''/'' @ part) = segments cp @ [part]"
    by (simp only: segments_append_slash segments_valid[OF v])
  moreover have "segments (''/'' @ part) = [part]"
    using segments_append_slash[of "[]" part] segments_valid[OF v] e by simp
  ultimately show ?thesis using e by (cases "cp = []") simp_all
qed

lemma ensure_parts_dirs_first:
  "\<forall>w \<in> set parts. CHR ''/'' \<notin> set w \<Longrightarrow> segments cp \<in> E \<Longrightarrow>
   ensure_parts s cp parts = (r, s', tr) \<Longrightarrow>
     dirs_first E tr
     \<and> (r = None \<longrightarrow> segments cp @ filter (\<lambda>w. w \<noteq> []) parts \<in> E \<union> \<Union> (ensured_by ` set tr))"
proof (induction parts arbitrary: s cp E r s' tr)
  case Nil
  then show ?case by simp
next
  case (Cons part parts)
  from Cons.prems(1) have ps: "\<forall>w \<in> set parts. CHR ''/'' \<notin> set w" and np: "CHR ''/'' \<notin> set part"
    by simp_all
  show ?case
  proof (cases "part = []")
    case True
    with Cons.prems(3) have "ensure_parts s cp parts = (r, s', tr)" by simp
    from Cons.IH[OF ps Cons.prems(2) this] True show ?thesis by simp
  next
    case False
    let ?cp = "if cp \<noteq> [] then cp @ ''/'' @ part else ''/'' @ part"
    have sg: "segments ?cp = segments cp @ [part]" by (rule segments_next[OF False np])
    have g: "segments cp @ filter (\<lambda>w. w \<noteq> []) (part # parts)
               = segments ?cp @ filter (\<lambda>w. w \<noteq> []) parts"
      using False by (simp only: sg) simp
    let ?E = "E \<union> {segments ?cp}"
    have inE: "segments ?cp \<in> ?E" by blast
    show ?thesis
    proof (cases "sftp_stat s ?cp")
      case None
      obtain r1 s1 t1 where e1: "ensure_parts s ?cp parts = (r1, s1, t1)"
        by (cases "ensure_parts s ?cp parts") auto
      from Cons.prems(3) False None e1
      have tr: "tr = (Stat ?cp, None) # t1" and r: "r = r1" by (simp_all add: Let_def)
      from Cons.IH[OF ps inE e1]
      have d: "dirs_first ?E t1"
        and f: "r1 = None \<longrightarrow> segments ?cp @ filter (\<lambda>w. w \<noteq> []) parts \<in> ?E \<union> \<Union> (ensured_by ` set t1)"
        by blast+
      have u: "?E \<union> \<Union> (ensured_by ` set t1) = E \<union> \<Union> (ensured_by ` set tr)"
        unfolding tr by auto
      from d have "dirs_first E tr" unfolding tr by simp
      moreover have "r = None \<longrightarrow> segments cp @ filter (\<lambda>w. w \<noteq> []) (part # parts)
              \<in> E \<union> \<Union> (ensured_by ` set tr)"
      proof -
        from f have "r1 = None \<longrightarrow> segments ?cp @ filter (\<lambda>w. w \<noteq> []) parts
              \<in> E \<union> \<Union> (ensured_by ` set tr)" by (simp only: u)
        then show ?thesis by (simp only: g r)
      qed
      ultimately show ?thesis by blast
    next
      case (Some e)
      show ?thesis
      proof (cases "e = FileNotFoundError")
        case F: False
        with Cons.prems(3) False Some have "tr = [(Stat ?cp, Some e)]" "r = Some e"
          by (auto simp: Let_def)
        then show ?thesis by simp
      next
        case T: True
        obtain m s1 where mk: "sftp_mkdir s ?cp = (m, s1)" by (cases "sftp_mkdir s ?cp") auto
        obtain r2 s2 t2 where e2: "ensure_parts s1 ?cp parts = (r2, s2, t2)"
          by (cases "ensure_parts s1 ?cp parts") auto
        from Cons.prems(3) False Some T mk e2
        have tr: "tr = (Stat ?cp, Some e) # (Mkdir ?cp, m) # t2" and r: "r = r2"
          by (simp_all add: Let_def)
        from Cons.IH[OF ps inE e2]
        have d: "dirs_first ?E t2"
          and f: "r2 = None \<longrightarrow> segments ?cp @ filter (\<lambda>w. w \<noteq> []) parts \<in> ?E \<union> \<Union> (ensured_by ` set t2)"
          by blast+
        have u: "?E \<union> \<Union> (ensured_by ` set t2) = E \<union> \<Union> (ensured_by ` set tr)"
          unfolding tr by auto
        have "butlast (segments ?cp) \<in> E" using sg Cons.prems(2) by simp
        with d have "dirs_first E tr" unfolding tr by simp
        moreover have "r = None \<longrightarrow> segments cp @ filter (\<lambda>w. w \<noteq> []) (part # parts)
                \<in> E \<union> \<Union> (ensured_by ` set tr)"
        proof -
          from f have "r2 = None \<longrightarrow> segments ?cp @ filter (\<lambda>w. w \<noteq> []) parts
                \<in> E \<union> \<Union> (ensured_by ` set tr)" by (simp only: u)
          then show ?thesis by (simp only: g r)
        qed
        ultimately show ?thesis by blast
      qed
    qed
  qed
qed

lemma ensure_dirs_first:
  assumes "[] \<in> E" and "ensure_remote_directory s rd = (r, s', tr)"
  shows "dirs_first E tr \<and> (r = None \<longrightarrow> segments rd \<in> E \<union> \<Union> (ensured_by ` set tr))"
proof (cases "sftp_stat s rd")
  case None
  with assms(2) have "tr = [(Stat rd, None)]" by (simp add: ensure_remote_directory_def)
  then show ?thesis by simp
next
  case (Some e)
  show ?thesis
  proof (cases "e = FileNotFoundError")
    case False
    with assms(2) Some have "tr = [(Stat rd, Some e)]" "r = Some e"
      by (auto simp: ensure_remote_directory_def)
    then show ?thesis by simp
  next
    case True
    let ?parts = "split_slash (rstrip_slash rd)"
    obtain r1 s1 t1 where p: "ensure_parts s [] ?parts = (r1, s1, t1)"
      by (cases "ensure_parts s [] ?parts") auto
    from assms(2) Some True p have tr: "tr = (Stat rd, Some e) # t1" and r: "r = r1"
      by (simp_all add: ensure_remote_directory_def)
    have e0: "segments [] = []" by (simp add: segments_def)
    with assms(1) have "segments [] \<in> E" by simp
    from ensure_parts_dirs_first[OF split_slash_parts this p]
    have d: "dirs_first E t1"
      and f: "r1 = None \<longrightarrow> segments [] @ filter (\<lambda>w. w \<noteq> []) ?parts \<in> E \<union> \<Union> (ensured_by ` set t1)"
      by blast+
    have "filter (\<lambda>w. w \<noteq> []) ?parts = segments rd"
      using segments_rstrip[of rd] by (simp add: segments_def)
    with f e0 r have "r = None \<longrightarrow> segments rd \<in> E \<union> \<Union> (ensured_by ` set tr)"
      unfolding tr by auto
    moreover from d True have "dirs_first E tr" unfolding tr by simp
    ultimately show ?thesis by blast
  qed
qed

lemma exec_dirs_first:
  "plan_ok E as \<Longrightarrow> [] \<in> E \<Longrightarrow> exec s as = (r, s', tr) \<Longrightarrow> dirs_first E tr"
proof (induction as arbitrary: s E r s' tr)
  case Nil
  then show ?case by simp
next
  case (Cons a as)
  from Cons.prems(3) show ?case
  proof (cases rule: exec_cons_cases)
    case (stop e)
    from stop(1) show ?thesis
    proof (cases rule: act_cases)
      case (ensure rd)
      from ensure_dirs_first[OF Cons.prems(2) ensure(2)] show ?thesis by blast
    next
      case (put rp c)
      with Cons.prems(1) show ?thesis by simp
    next
      case listdir
      then show ?thesis by simp
    qed
  next
    case (go s1 t1 t2)
    from go(1) show ?thesis
    proof (cases rule: act_cases)
      case (ensure rd)
      from ensure_dirs_first[OF Cons.prems(2) ensure(2)]
      have d1: "dirs_first E t1" and in1: "segments rd \<in> E \<union> \<Union> (ensured_by ` set t1)"
        by blast+
      let ?E = "E \<union> \<Union> (ensured_by ` set t1)"
      from Cons.prems(1) ensure(1) have "plan_ok (insert (segments rd) E) as" by simp
      then have "plan_ok ?E as" by (rule plan_ok_mono) (use in1 in auto)
      moreover from Cons.prems(2) have "[] \<in> ?E" by blast
      ultimately have "dirs_first ?E t2" using go(2) by (rule Cons.IH)
      with d1 go(3) show ?thesis by (simp only: dirs_first_append)
    next
      case (put rp c)
      from Cons.prems(1) put(1) have b: "butlast (segments rp) \<in> E" and ok: "plan_ok E as"
        by simp_all
      from Cons.IH[OF ok Cons.prems(2) go(2)] have "dirs_first E t2" .
      with b put(3) go(3) show ?thesis by simp
    next
      case listdir
      then show ?thesis by simp
    qed
  qed
qed

lemma upload_try_channel_needs_transport:
  "upload_try nw tree host port user pw = (r, tp, sf, s', tr) \<Longrightarrow> sf \<longrightarrow> tp"
  by (auto simp: upload_try_def split: option.splits prod.splits)

lemma closes_come_last:
  assumes tr: "tr = body @ (if sf then [cs] else []) @ (if tp then [ct] else [])"
    and nb: "\<forall>x \<in> set body. \<not> closing (fst x)"
    and c: "closing (fst cs)" "closing (fst ct)"
    and st: "sf \<longrightarrow> tp"
  shows "tp \<longrightarrow> tr \<noteq> [] \<and> last tr = ct"
    and "sf \<longrightarrow> butlast tr \<noteq> [] \<and> last (butlast tr) = cs \<and> last tr = ct"
    and "filter (\<lambda>x. closing (fst x)) tr = (if sf then [cs] else []) @ (if tp then [ct] else [])"
    and "tr = filter (\<lambda>x. \<not> closing (fst x)) tr @ filter (\<lambda>x. closing (fst x)) tr"
proof -
  from nb have fb: "filter (\<lambda>x. closing (fst x)) body = []"
    "filter (\<lambda>x. \<not> closing (fst x)) body = body"
    by (simp_all add: filter_empty_conv filter_id_conv)
  show "tp \<longrightarrow> tr \<noteq> [] \<and> last tr = ct" unfolding tr by simp
  show "sf \<longrightarrow> butlast tr \<noteq> [] \<and> last (butlast tr) = cs \<and> last tr = ct"
    unfolding tr using st by (simp add: butlast_append)
  show "filter (\<lambda>x. closing (fst x)) tr = (if sf then [cs] else []) @ (if tp then [ct] else [])"
    unfolding tr using fb c by simp
  show "tr = filter (\<lambda>x. \<not> closing (fst x)) tr @ filter (\<lambda>x. closing (fst x)) tr"
    unfolding tr using fb c by simp
qed

lemma upload_repo_trace_shape:
  "\<exists>body tp sf.
      snd (snd (snd (upload_repo paramiko env nw cfg)))
        = body @ (if sf then [(CloseSftp, close_sftp_raises nw)] else [])
               @ (if tp then [(CloseTransport, close_transport_raises nw)] else [])
      \<and> (\<forall>x \<in> set body. \<not> closing (fst x))
      \<and> (tp \<longleftrightarrow> (\<exists>h p. (Connect h p, None) \<in> set body))
      \<and> (sf \<longleftrightarrow> (OpenSftp, None) \<in> set body)
      \<and> (sf \<longrightarrow> tp)"
proof -
  from upload_repo_cases[of paramiko env nw cfg] consider
    (early) lg where "upload_repo paramiko env nw cfg = (SysExit 1, lg, server nw, [])"
  | (session) tree r tp sf s' tr lg where
      "upload_try nw tree (the (sftp_host cfg))
           (case sftp_port cfg of None \<Rightarrow> 22 | Some n \<Rightarrow> n)
           (the (sftp_user cfg)) (the (sftp_password cfg)) = (r, tp, sf, s', tr)"
      "upload_repo paramiko env nw cfg
            = ((case r of None \<Rightarrow> Return () | Some e \<Rightarrow> SysExit 1), lg, s',
               tr @ upload_finally nw tp sf)"
    by blast
  then show ?thesis
  proof cases
    case early
    show ?thesis
      by (rule exI[of _ "[]"], rule exI[of _ False], rule exI[of _ False]) (simp add: early)
  next
    case session
    from upload_try_shape[OF session(1)]
    have a: "\<forall>x \<in> set tr. \<not> closing (fst x)"
      and b: "tp \<longleftrightarrow> (\<exists>h p. (Connect h p, None) \<in> set tr)"
      and c: "sf \<longleftrightarrow> (OpenSftp, None) \<in> set tr" by blast+
    note d = upload_try_channel_needs_transport[OF session(1)]
    show ?thesis
      by (rule exI[of _ tr], rule exI[of _ tp], rule exI[of _ sf])
         (simp add: session(2) upload_finally_def a b[symmetric] c[symmetric] d)
  qed
qed

lemma run_command_not_found_exits:
  "orc (calls st) c = CmdNotFound \<Longrightarrow>
     \<exists>st'. run_command orc c chk cap st = (SysExit 1, st') \<and> calls st' = calls st @ [c]
        \<and> (\<forall>x \<in> set (drop (length (logs st)) (logs st')). fst x = ERROR)"
  by (simp add: run_command_def subprocess_run_def launch_def log_def)

lemma trust_not_found:
  assumes "orc (calls st) trust_info_cmd = CmdNotFound"
  shows "\<exists>st'. configure_trust_info orc st = (SysExit 1, st')
           \<and> calls st' = calls st @ [trust_info_cmd]
           \<and> (\<forall>x \<in> set (drop (length (logs st)) (logs st')). fst x \<noteq> WARNING)"
proof -
  let ?st = "log INFO ''Configuring AutoPkg trust info preference...'' st"
  from assms have "orc (calls ?st) trust_info_cmd = CmdNotFound" by simp
  from run_command_not_found_exits[where orc=orc and st="?st" and c=trust_info_cmd
      and chk=True and cap=False, OF this]
  obtain st' where rc: "run_command orc trust_info_cmd True False ?st = (SysExit 1, st')"
    and c: "calls st' = calls ?st @ [trust_info_cmd]"
    and l: "\<forall>x \<in> set (drop (length (logs ?st)) (logs st')). fst x = ERROR" by blast
  from rc have lg: "\<exists>ms. logs st' = logs ?st @ ms"
    by (auto simp: run_command_def subprocess_run_def launch_def log_def
         split: completed.splits if_splits exn.splits)
  then obtain ms where ms: "logs st' = logs st @ (INFO, ''Configuring AutoPkg trust info preference...'') # ms"
    by auto
  with l have "\<forall>x \<in> set ms. fst x = ERROR" by simp
  with ms have "\<forall>x \<in> set (drop (length (logs st)) (logs st')). fst x \<noteq> WARNING" by auto
  with rc c show ?thesis by (simp add: configure_trust_info_def)
qed

lemma munki_not_found:
  assumes "truthy (repo_path cfg)"
    and "path_exists env (resolve_repo_path env (the (repo_path cfg)))"
    and "orc (calls st) (munki_repo_cmd (resolve_repo_path env (the (repo_path cfg)))) = CmdNotFound"
  shows "\<exists>st'. configure_munki_repo orc env cfg st = (SysExit 1, st')"
proof -
  let ?p = "resolve_repo_path env (the (repo_path cfg))"
  let ?st = "log INFO ''Configuring MUNKI_REPO'' st"
  from assms(3) have "orc (calls ?st) (munki_repo_cmd ?p) = CmdNotFound" by simp
  from run_command_not_found_exits[where orc=orc and st="?st" and c="munki_repo_cmd ?p"
      and chk=True and cap=False, OF this]
  obtain st' where "run_command orc (munki_repo_cmd ?p) True False ?st = (SysExit 1, st')"
    by blast
  with assms(1,2) show ?thesis by (simp add: configure_munki_repo_def Let_def)
qed

section \<open>Claims about the default mode\<close>

text \<open>
  C5. Whatever the outside world answers to each recipe command (a non-zero exit
  status, the executable not found, any other launch error), \<open>run_recipes\<close> returns
  normally and has launched the command of every non-empty configured recipe, in
  order. When the three earlier steps of \<open>run\<close> return normally, \<open>run\<close> returns, the
  process ends with status 0, and the commands \<open>run\<close> has launched are those of the
  three steps followed by the command of every non-empty configured recipe.
\<close>

theorem recipe_isolation:
  "fst (run_recipes orc cfg st) = Return ()
   \<and> calls (snd (run_recipes orc cfg st))
       = calls st @ map recipe_cmd (filter (\<lambda>r. r \<noteq> []) (recipes cfg))
   \<and> (fst (then_step
             (then_step
                (configure_munki_repo orc env cfg
                   (log INFO ''Starting AutoPkg configuration and recipe execution...'' st))
                (configure_trust_info orc))
             (add_repositories orc cfg)) = Return ()
        \<longrightarrow> fst (run orc env cfg st) = Return ()
            \<and> exit_code (fst (run orc env cfg st)) = 0
            \<and> calls (snd (run orc env cfg st))
                = calls (snd (then_step
                     (then_step
                        (configure_munki_repo orc env cfg
                           (log INFO ''Starting AutoPkg configuration and recipe execution...'' st))
                        (configure_trust_info orc))
                     (add_repositories orc cfg)))
                  @ map recipe_cmd (filter (\<lambda>r. r \<noteq> []) (recipes cfg)))"
proof -
  let ?pre = "then_step
             (then_step
                (configure_munki_repo orc env cfg
                   (log INFO ''Starting AutoPkg configuration and recipe execution...'' st))
                (configure_trust_info orc))
             (add_repositories orc cfg)"
  have "fst (run orc env cfg st) = Return ()
            \<and> exit_code (fst (run orc env cfg st)) = 0
            \<and> calls (snd (run orc env cfg st))
                = calls (snd ?pre) @ map recipe_cmd (filter (\<lambda>r. r \<noteq> []) (recipes cfg))"
    if h: "fst ?pre = Return ()"
  proof -
    obtain r st3 where e: "?pre = (r, st3)" by (cases ?pre)
    with h have r: "r = Return ()" by simp
    obtain st4 where rr: "run_recipes orc cfg st3 = (Return (), st4)"
      and c: "calls st4 = calls st3 @ map recipe_cmd (filter (\<lambda>r. r \<noteq> []) (recipes cfg))"
      using run_recipes_all[of orc cfg st3] by (cases "run_recipes orc cfg st3") auto
    from e r rr have "run orc env cfg st
        = (Return (), log INFO ''AutoPkg runner completed successfully'' st4)"
      by (simp add: run_def then_step_def)
    with c e show ?thesis by (simp add: exit_code_def)
  qed
  with run_recipes_all[of orc cfg st] show ?thesis by blast
qed

theorem recipe_isolation_witness:
  "run
       (\<lambda>h c. if c = recipe_cmd ''A.munki'' then Exited 1 [] []
               else if c = recipe_cmd ''B.munki'' then CmdNotFound else Exited 0 [] [])
       \<lparr>script_dir = ''/opt/autopkg'', abspath = (\<lambda>p. p), lfs = (\<lambda>p. None)\<rparr>
       \<lparr>repo_path = None, repos = [], recipes = [''A.munki'', ''B.munki'', ''C.munki''],
        sftp_host = None, sftp_port = None, sftp_user = None, sftp_password = None\<rparr>
       \<lparr>calls = [], logs = [], environ = []\<rparr>
     = (Return (),
        \<lparr>calls = [trust_info_cmd, recipe_cmd ''A.munki'', recipe_cmd ''B.munki'',
                  recipe_cmd ''C.munki''],
         logs = [(INFO, ''Starting AutoPkg configuration and recipe execution...''),
                 (WARNING, ''No repo_path specified in config, skipping MUNKI_REPO configuration''),
                 (INFO, ''Configuring AutoPkg trust info preference...''),
                 (INFO, ''FAIL_RECIPES_WITHOUT_TRUST_INFO configured''),
                 (WARNING, ''No repositories specified in config''),
                 (INFO, ''Running recipe(s)...''),
                 (INFO, ''Running recipe''), (ERROR, ''Recipe failed with exit code''),
                 (INFO, ''Running recipe''), (ERROR, ''Recipe failed''),
                 (INFO, ''Running recipe''), (INFO, ''Recipe completed successfully''),
                 (INFO, ''AutoPkg runner completed successfully'')],
         environ = [(''FAIL_RECIPES_WITHOUT_TRUST_INFO'', ''false'')]\<rparr>)
   \<and> exit_code (fst (run
       (\<lambda>h c. if c = recipe_cmd ''A.munki'' then Exited 1 [] []
               else if c = recipe_cmd ''B.munki'' then CmdNotFound else Exited 0 [] [])
       \<lparr>script_dir = ''/opt/autopkg'', abspath = (\<lambda>p. p), lfs = (\<lambda>p. None)\<rparr>
       \<lparr>repo_path = None, repos = [], recipes = [''A.munki'', ''B.munki'', ''C.munki''],
        sftp_host = None, sftp_port = None, sftp_user = None, sftp_password = None\<rparr>
       \<lparr>calls = [], logs = [], environ = []\<rparr>)) = 0"
  using recipe_isolation [of
       "(\<lambda>h c. if c = recipe_cmd ''A.munki'' then Exited 1 [] []
               else if c = recipe_cmd ''B.munki'' then CmdNotFound else Exited 0 [] [])"
       "\<lparr>repo_path = None, repos = [], recipes = [''A.munki'', ''B.munki'', ''C.munki''],
        sftp_host = None, sftp_port = None, sftp_user = None, sftp_password = None\<rparr>"
       "\<lparr>calls = [], logs = [], environ = []\<rparr>"
       "\<lparr>script_dir = ''/opt/autopkg'', abspath = (\<lambda>p. p), lfs = (\<lambda>p. None)\<rparr>"]
  by (simp add: run_def then_step_def configure_munki_repo_def configure_trust_info_def
        add_repositories_def run_recipes_def run_command_def subprocess_run_def launch_def
        truthy_def log_def trust_info_cmd_def recipe_cmd_def exit_code_def)

text \<open>
  C6, as amended. When the \<^verbatim>\<open>autopkg\<close> executable can be launched, every other failure
  of registering an entry (a non-zero exit of \<^verbatim>\<open>repo-add\<close>, with the name or the URL found
  in the list or not, a failing \<^verbatim>\<open>repo-list\<close>, a launch error) leaves the loop running:
  \<open>add_repositories\<close> returns normally and has launched \<^verbatim>\<open>repo-add\<close> for every valid
  entry, in order. When the executable is not found, \<open>run_command\<close> ends the process
  with status 1 and the later entries are not attempted (the counterexample).
\<close>

theorem repo_isolation_when_launchable:
  assumes "\<forall>n. launchable orc (repo_add_cmd n)" and "launchable orc repo_list_cmd"
  shows "fst (add_repositories orc cfg st) = Return ()
     \<and> filter (\<lambda>c. c \<noteq> repo_list_cmd)
          (drop (length (calls st)) (calls (snd (add_repositories orc cfg st))))
        = map (\<lambda>x. repo_add_cmd (the (name x))) (filter valid_repo (repos cfg))"
  using add_repositories_isolated[OF assms, of cfg st] by auto

theorem repo_isolation_counterexample:
  "fst (add_repositories (\<lambda>h c. CmdNotFound)
        \<lparr>repo_path = None,
         repos = [\<lparr>name = Some ''A'', url = Some ''https://example.org/A''\<rparr>,
                  \<lparr>name = Some ''B'', url = Some ''https://example.org/B''\<rparr>],
         recipes = [], sftp_host = None, sftp_port = None, sftp_user = None,
         sftp_password = None\<rparr>
        \<lparr>calls = [], logs = [], environ = []\<rparr>) = SysExit 1
   \<and> calls (snd (add_repositories (\<lambda>h c. CmdNotFound)
        \<lparr>repo_path = None,
         repos = [\<lparr>name = Some ''A'', url = Some ''https://example.org/A''\<rparr>,
                  \<lparr>name = Some ''B'', url = Some ''https://example.org/B''\<rparr>],
         recipes = [], sftp_host = None, sftp_port = None, sftp_user = None,
         sftp_password = None\<rparr>
        \<lparr>calls = [], logs = [], environ = []\<rparr>)) = [repo_add_cmd ''A'']"
  by (simp add: add_repositories_def run_command_def subprocess_run_def launch_def truthy_def
        log_def)

theorem repo_isolation_witness:
  "fst (add_repositories
        (\<lambda>h c. if c = repo_add_cmd ''A'' then Exited 1 [] [] else
                if c = repo_list_cmd then Exited 2 [] [] else Exited 0 [] [])
        \<lparr>repo_path = None,
         repos = [\<lparr>name = Some ''A'', url = Some ''https://example.org/A''\<rparr>,
                  \<lparr>name = Some ''B'', url = Some ''https://example.org/B''\<rparr>],
         recipes = [], sftp_host = None, sftp_port = None, sftp_user = None,
         sftp_password = None\<rparr>
        \<lparr>calls = [], logs = [], environ = []\<rparr>) = Return ()
   \<and> calls (snd (add_repositories
        (\<lambda>h c. if c = repo_add_cmd ''A'' then Exited 1 [] [] else
                if c = repo_list_cmd then Exited 2 [] [] else Exited 0 [] [])
        \<lparr>repo_path = None,
         repos = [\<lparr>name = Some ''A'', url = Some ''https://example.org/A''\<rparr>,
                  \<lparr>name = Some ''B'', url = Some ''https://example.org/B''\<rparr>],
         recipes = [], sftp_host = None, sftp_port = None, sftp_user = None,
         sftp_password = None\<rparr>
        \<lparr>calls = [], logs = [], environ = []\<rparr>))
     = [repo_add_cmd ''A'', repo_list_cmd, repo_add_cmd ''B'']"
  using repo_isolation_when_launchable [of
        "(\<lambda>h c. if c = repo_add_cmd ''A'' then Exited 1 [] [] else
                if c = repo_list_cmd then Exited 2 [] [] else Exited 0 [] [])"
        "\<lparr>repo_path = None,
         repos = [\<lparr>name = Some ''A'', url = Some ''https://example.org/A''\<rparr>,
                  \<lparr>name = Some ''B'', url = Some ''https://example.org/B''\<rparr>],
         recipes = [], sftp_host = None, sftp_port = None, sftp_user = None,
         sftp_password = None\<rparr>"
        "\<lparr>calls = [], logs = [], environ = []\<rparr>"]
  by (simp add: add_repositories_def run_command_def subprocess_run_def launch_def truthy_def
        log_def launchable_def repo_add_cmd_def repo_list_cmd_def valid_repo_def)


text \<open>
  C7, as amended. When the repository path is unset, empty or resolves to a path
  that does not exist, \<open>configure_munki_repo\<close> returns normally, launches no command
  (no preference is written) and logs warnings only. When the executables of the two
  later steps can be launched, \<open>run\<close> ends with status 0 and its last commands are the
  commands of all non-empty configured recipes. When \<^verbatim>\<open>defaults\<close> is not found, the
  trust step ends the process before any recipe (the counterexample).
\<close>

theorem missing_path_is_skipped:
  assumes "\<not> truthy (repo_path cfg)
           \<or> \<not> path_exists env (resolve_repo_path env (the (repo_path cfg)))"
  shows "fst (configure_munki_repo orc env cfg st) = Return ()
     \<and> calls (snd (configure_munki_repo orc env cfg st)) = calls st
     \<and> drop (length (logs st)) (logs (snd (configure_munki_repo orc env cfg st))) \<noteq> []
     \<and> (\<forall>x \<in> set (drop (length (logs st)) (logs (snd (configure_munki_repo orc env cfg st)))).
           fst x = WARNING)
     \<and> (launchable orc trust_info_cmd \<and> (\<forall>n. launchable orc (repo_add_cmd n))
          \<and> launchable orc repo_list_cmd
        \<longrightarrow> exit_code (fst (run orc env cfg st)) = 0
            \<and> (\<exists>pre. calls (snd (run orc env cfg st))
                   = pre @ map recipe_cmd (filter (\<lambda>r. r \<noteq> []) (recipes cfg))))"
proof -
  let ?s0 = "log INFO ''Starting AutoPkg configuration and recipe execution...'' st"
  have "exit_code (fst (run orc env cfg st)) = 0
        \<and> (\<exists>pre. calls (snd (run orc env cfg st))
                   = pre @ map recipe_cmd (filter (\<lambda>r. r \<noteq> []) (recipes cfg)))"
    if l1: "launchable orc trust_info_cmd" and l2: "\<forall>n. launchable orc (repo_add_cmd n)"
      and l3: "launchable orc repo_list_cmd"
  proof -
    obtain st1 where m: "configure_munki_repo orc env cfg ?s0 = (Return (), st1)"
      using munki_skipped(1)[OF assms, where orc=orc and st="?s0"]
      by (cases "configure_munki_repo orc env cfg ?s0") auto
    obtain st2 where t: "configure_trust_info orc st1 = (Return (), st2)"
      using trust_returns[OF l1, of st1] by blast
    obtain st3 where a: "add_repositories orc cfg st2 = (Return (), st3)"
      using add_repositories_isolated[OF l2 l3, of cfg st2]
      by (cases "add_repositories orc cfg st2") auto
    obtain st4 where r: "run_recipes orc cfg st3 = (Return (), st4)"
      and c: "calls st4 = calls st3 @ map recipe_cmd (filter (\<lambda>r. r \<noteq> []) (recipes cfg))"
      using run_recipes_all[of orc cfg st3] by (cases "run_recipes orc cfg st3") auto
    from m t a r have "run orc env cfg st
        = (Return (), log INFO ''AutoPkg runner completed successfully'' st4)"
      by (simp add: run_def then_step_def)
    with c show ?thesis by (simp add: exit_code_def)
  qed
  with munki_skipped[OF assms, where orc=orc and st=st] show ?thesis by blast
qed

theorem missing_path_counterexample:
  "fst (run (\<lambda>h c. if hd c = ''defaults'' then CmdNotFound else Exited 0 [] [])
        \<lparr>script_dir = ''/opt/autopkg'', abspath = (\<lambda>p. p), lfs = (\<lambda>p. None)\<rparr>
        \<lparr>repo_path = Some ''/nonexistent'', repos = [], recipes = [''Firefox.munki''],
         sftp_host = None, sftp_port = None, sftp_user = None, sftp_password = None\<rparr>
        \<lparr>calls = [], logs = [], environ = []\<rparr>) = SysExit 1
   \<and> calls (snd (run (\<lambda>h c. if hd c = ''defaults'' then CmdNotFound else Exited 0 [] [])
        \<lparr>script_dir = ''/opt/autopkg'', abspath = (\<lambda>p. p), lfs = (\<lambda>p. None)\<rparr>
        \<lparr>repo_path = Some ''/nonexistent'', repos = [], recipes = [''Firefox.munki''],
         sftp_host = None, sftp_port = None, sftp_user = None, sftp_password = None\<rparr>
        \<lparr>calls = [], logs = [], environ = []\<rparr>)) = [trust_info_cmd]"
  by (simp add: run_def then_step_def configure_munki_repo_def configure_trust_info_def
        run_command_def subprocess_run_def launch_def truthy_def log_def trust_info_cmd_def
        resolve_repo_path_def path_exists_def isabs_def)

theorem missing_path_witness:
  "snd (configure_munki_repo (\<lambda>h c. Exited 0 [] [])
        \<lparr>script_dir = ''/opt/autopkg'', abspath = (\<lambda>p. p), lfs = (\<lambda>p. None)\<rparr>
        \<lparr>repo_path = Some ''/nonexistent'', repos = [], recipes = [''Firefox.munki''],
         sftp_host = None, sftp_port = None, sftp_user = None, sftp_password = None\<rparr>
        \<lparr>calls = [], logs = [], environ = []\<rparr>)
     = \<lparr>calls = [],
        logs = [(WARNING, ''MUNKI_REPO path does not exist''),
                (WARNING, ''Skipping MUNKI_REPO configuration'')],
        environ = []\<rparr>
   \<and> exit_code (fst (run (\<lambda>h c. Exited 0 [] [])
        \<lparr>script_dir = ''/opt/autopkg'', abspath = (\<lambda>p. p), lfs = (\<lambda>p. None)\<rparr>
        \<lparr>repo_path = Some ''/nonexistent'', repos = [], recipes = [''Firefox.munki''],
         sftp_host = None, sftp_port = None, sftp_user = None, sftp_password = None\<rparr>
        \<lparr>calls = [], logs = [], environ = []\<rparr>)) = 0
   \<and> calls (snd (run (\<lambda>h c. Exited 0 [] [])
        \<lparr>script_dir = ''/opt/autopkg'', abspath = (\<lambda>p. p), lfs = (\<lambda>p. None)\<rparr>
        \<lparr>repo_path = Some ''/nonexistent'', repos = [], recipes = [''Firefox.munki''],
         sftp_host = None, sftp_port = None, sftp_user = None, sftp_password = None\<rparr>
        \<lparr>calls = [], logs = [], environ = []\<rparr>))
      = [trust_info_cmd, recipe_cmd ''Firefox.munki'']"
  using missing_path_is_skipped [of
        "\<lparr>repo_path = Some ''/nonexistent'', repos = [], recipes = [''Firefox.munki''],
         sftp_host = None, sftp_port = None, sftp_user = None, sftp_password = None\<rparr>"
        "\<lparr>script_dir = ''/opt/autopkg'', abspath = (\<lambda>p. p), lfs = (\<lambda>p. None)\<rparr>"
        "(\<lambda>h c. Exited 0 [] [])"
        "\<lparr>calls = [], logs = [], environ = []\<rparr>"]
  by (simp add: run_def then_step_def configure_munki_repo_def configure_trust_info_def
        add_repositories_def run_recipes_def
        run_command_def subprocess_run_def launch_def truthy_def log_def
        resolve_repo_path_def path_exists_def isabs_def launchable_def)


text \<open>
  C10, as amended. When the preference-write command was launched and failed (a
  non-zero exit status, or a launch error other than "not found"):
  \<open>configure_munki_repo\<close> raises, and \<open>run\<close> ends the process with status 1;
  \<open>configure_trust_info\<close> returns normally and its last message is a warning, and
  \<open>run\<close> goes on: how it ends is decided by the registration step alone, and when
  that step returns, \<open>run\<close> ends with status 0 after launching every non-empty
  recipe. When the command is not found the two steps do not differ: each ends the
  process with status 1, the trust step logs no warning, and \<open>run\<close> launches nothing
  after it (the counterexample).
\<close>

theorem preference_steps_differ:
  "(truthy (repo_path cfg)
      \<and> path_exists env (resolve_repo_path env (the (repo_path cfg)))
      \<and> primitive_fails (orc (calls st) (munki_repo_cmd (resolve_repo_path env (the (repo_path cfg)))))
    \<longrightarrow> (\<exists>e. fst (configure_munki_repo orc env cfg st) = Raise e)
        \<and> fst (run orc env cfg st) = SysExit 1
        \<and> exit_code (fst (run orc env cfg st)) \<noteq> 0)
   \<and> (primitive_fails (orc (calls st) trust_info_cmd)
    \<longrightarrow> fst (configure_trust_info orc st) = Return ()
        \<and> fst (last (logs (snd (configure_trust_info orc st)))) = WARNING
        \<and> calls (snd (configure_trust_info orc st)) = calls st @ [trust_info_cmd])
   \<and> (fst (configure_munki_repo orc env cfg (log INFO ''Starting AutoPkg configuration and recipe execution...'' st)) = Return ()
      \<and> primitive_fails (orc (calls (snd (configure_munki_repo orc env cfg (log INFO ''Starting AutoPkg configuration and recipe execution...'' st)))) trust_info_cmd)
    \<longrightarrow> fst (run orc env cfg st)
          = (case fst (add_repositories orc cfg (snd (configure_trust_info orc (snd (configure_munki_repo orc env cfg (log INFO ''Starting AutoPkg configuration and recipe execution...'' st)))))) of
               Return u \<Rightarrow> Return () | Raise e \<Rightarrow> SysExit 1 | SysExit k \<Rightarrow> SysExit k)
        \<and> (fst (add_repositories orc cfg (snd (configure_trust_info orc (snd (configure_munki_repo orc env cfg (log INFO ''Starting AutoPkg configuration and recipe execution...'' st)))))) = Return ()
           \<longrightarrow> exit_code (fst (run orc env cfg st)) = 0
               \<and> calls (snd (run orc env cfg st))
                   = calls (snd (add_repositories orc cfg (snd (configure_trust_info orc (snd (configure_munki_repo orc env cfg (log INFO ''Starting AutoPkg configuration and recipe execution...'' st)))))))
                     @ map recipe_cmd (filter (\<lambda>r. r \<noteq> []) (recipes cfg))))
   \<and> (orc (calls st) trust_info_cmd = CmdNotFound
    \<longrightarrow> fst (configure_trust_info orc st) = SysExit 1
        \<and> (\<forall>x \<in> set (drop (length (logs st)) (logs (snd (configure_trust_info orc st)))).
              fst x \<noteq> WARNING))
   \<and> (fst (configure_munki_repo orc env cfg (log INFO ''Starting AutoPkg configuration and recipe execution...'' st)) = Return ()
      \<and> orc (calls (snd (configure_munki_repo orc env cfg (log INFO ''Starting AutoPkg configuration and recipe execution...'' st)))) trust_info_cmd = CmdNotFound
    \<longrightarrow> fst (run orc env cfg st) = SysExit 1
        \<and> calls (snd (run orc env cfg st))
            = calls (snd (configure_munki_repo orc env cfg (log INFO ''Starting AutoPkg configuration and recipe execution...'' st))) @ [trust_info_cmd])
   \<and> (truthy (repo_path cfg)
      \<and> path_exists env (resolve_repo_path env (the (repo_path cfg)))
      \<and> orc (calls st) (munki_repo_cmd (resolve_repo_path env (the (repo_path cfg)))) = CmdNotFound
    \<longrightarrow> fst (configure_munki_repo orc env cfg st) = SysExit 1
        \<and> fst (run orc env cfg st) = SysExit 1)"
proof -
  let ?p = "resolve_repo_path env (the (repo_path cfg))"
  let ?s0 = "log INFO ''Starting AutoPkg configuration and recipe execution...'' st"
  define M where "M = configure_munki_repo orc env cfg ?s0"
  define T where "T = snd (configure_trust_info orc (snd M))"
  define A where "A = add_repositories orc cfg T"
  have c0: "calls ?s0 = calls st" by simp
  have a: "(\<exists>e. fst (configure_munki_repo orc env cfg st) = Raise e)
        \<and> fst (run orc env cfg st) = SysExit 1
        \<and> exit_code (fst (run orc env cfg st)) \<noteq> 0"
    if h: "truthy (repo_path cfg)" "path_exists env ?p"
          "primitive_fails (orc (calls st) (munki_repo_cmd ?p))"
  proof -
    from munki_raises[where orc=orc and st=st, OF h] obtain e st' where
      "configure_munki_repo orc env cfg st = (Raise e, st')" by blast
    then have 1: "\<exists>e. fst (configure_munki_repo orc env cfg st) = Raise e" by simp
    from h(3) have "primitive_fails (orc (calls ?s0) (munki_repo_cmd ?p))" by simp
    from munki_raises[where orc=orc and st="?s0", OF h(1,2) this] obtain e2 st2 where
      "configure_munki_repo orc env cfg ?s0 = (Raise e2, st2)" by blast
    then have "fst (run orc env cfg st) = SysExit 1"
      by (simp add: run_def then_step_def)
    with 1 show ?thesis by (simp add: exit_code_def)
  qed
  have b: "fst (configure_trust_info orc st) = Return ()
        \<and> fst (last (logs (snd (configure_trust_info orc st)))) = WARNING
        \<and> calls (snd (configure_trust_info orc st)) = calls st @ [trust_info_cmd]"
    if h: "primitive_fails (orc (calls st) trust_info_cmd)"
  proof -
    from trust_caught[where orc=orc and st=st, OF h]
    have r: "fst (configure_trust_info orc st) = Return ()"
      and w: "fst (last (logs (snd (configure_trust_info orc st)))) = WARNING" by simp_all
    from h have "orc (calls st) trust_info_cmd \<noteq> CmdNotFound"
      by (auto simp: primitive_fails_def)
    obtain x st' where e: "configure_trust_info orc st = (x, st')"
      by (cases "configure_trust_info orc st")
    let ?st = "log INFO ''Configuring AutoPkg trust info preference...'' st"
    obtain y st1 where rc: "run_command orc trust_info_cmd True False ?st = (y, st1)"
      by (cases "run_command orc trust_info_cmd True False ?st")
    from run_command_calls[OF rc] have "calls st1 = calls st @ [trust_info_cmd]" by simp
    with rc have "calls (snd (configure_trust_info orc st)) = calls st @ [trust_info_cmd]"
      by (cases y) (simp_all add: configure_trust_info_def)
    with r w show ?thesis by blast
  qed
  have c: "fst (run orc env cfg st)
          = (case fst A of Return u \<Rightarrow> Return () | Raise e \<Rightarrow> SysExit 1 | SysExit k \<Rightarrow> SysExit k)
        \<and> (fst A = Return ()
           \<longrightarrow> exit_code (fst (run orc env cfg st)) = 0
               \<and> calls (snd (run orc env cfg st))
                   = calls (snd A) @ map recipe_cmd (filter (\<lambda>r. r \<noteq> []) (recipes cfg)))"
    if h: "fst M = Return ()" "primitive_fails (orc (calls (snd M)) trust_info_cmd)"
  proof -
    obtain st1 where m: "configure_munki_repo orc env cfg ?s0 = (Return (), st1)"
      using h(1) unfolding M_def by (cases "configure_munki_repo orc env cfg ?s0") auto
    then have sm: "snd M = st1" by (simp add: M_def)
    from trust_caught(1)[where orc=orc and st=st1] h(2) sm
    have "fst (configure_trust_info orc st1) = Return ()" by simp
    then have t: "configure_trust_info orc st1 = (Return (), T)"
      unfolding T_def sm by (cases "configure_trust_info orc st1") auto
    obtain x st3 where ad: "add_repositories orc cfg T = (x, st3)"
      by (cases "add_repositories orc cfg T")
    then have A: "A = (x, st3)" by (simp add: A_def)
    obtain st4 where rr: "run_recipes orc cfg st3 = (Return (), st4)"
      and cc: "calls st4 = calls st3 @ map recipe_cmd (filter (\<lambda>r. r \<noteq> []) (recipes cfg))"
      using run_recipes_all[of orc cfg st3] by (cases "run_recipes orc cfg st3") auto
    from m t ad rr cc A show ?thesis
      by (cases x) (simp_all add: run_def then_step_def exit_code_def)
  qed
  have d: "fst (configure_trust_info orc st) = SysExit 1
        \<and> (\<forall>x \<in> set (drop (length (logs st)) (logs (snd (configure_trust_info orc st)))).
              fst x \<noteq> WARNING)"
    if h: "orc (calls st) trust_info_cmd = CmdNotFound"
    using trust_not_found[where orc=orc and st=st, OF h] by auto
  have d': "fst (run orc env cfg st) = SysExit 1
        \<and> calls (snd (run orc env cfg st)) = calls (snd M) @ [trust_info_cmd]"
    if h: "fst M = Return ()" "orc (calls (snd M)) trust_info_cmd = CmdNotFound"
  proof -
    obtain st1 where m: "configure_munki_repo orc env cfg ?s0 = (Return (), st1)"
      using h(1) unfolding M_def by (cases "configure_munki_repo orc env cfg ?s0") auto
    then have sm: "snd M = st1" by (simp add: M_def)
    from trust_not_found[where orc=orc and st=st1] h(2) sm obtain st2 where
      "configure_trust_info orc st1 = (SysExit 1, st2)" "calls st2 = calls st1 @ [trust_info_cmd]"
      by auto
    with m sm show ?thesis by (simp add: run_def then_step_def)
  qed
  have e: "fst (configure_munki_repo orc env cfg st) = SysExit 1
        \<and> fst (run orc env cfg st) = SysExit 1"
    if h: "truthy (repo_path cfg)" "path_exists env ?p"
          "orc (calls st) (munki_repo_cmd ?p) = CmdNotFound"
  proof -
    from munki_not_found[where orc=orc and st=st, OF h] have 1:
      "fst (configure_munki_repo orc env cfg st) = SysExit 1" by auto
    from h(3) have "orc (calls ?s0) (munki_repo_cmd ?p) = CmdNotFound" by simp
    from munki_not_found[where orc=orc and st="?s0", OF h(1,2) this] obtain st2 where
      "configure_munki_repo orc env cfg ?s0 = (SysExit 1, st2)" by blast
    then have "fst (run orc env cfg st) = SysExit 1" by (simp add: run_def then_step_def)
    with 1 show ?thesis by simp
  qed
  from a b c d d' e show ?thesis unfolding A_def T_def M_def by blast
qed

theorem preference_steps_differ_counterexample:
  "configure_trust_info (\<lambda>h c. CmdNotFound) \<lparr>calls = [], logs = [], environ = []\<rparr>
     = (SysExit 1,
        \<lparr>calls = [trust_info_cmd],
         logs = [(INFO, ''Configuring AutoPkg trust info preference...''),
                 (ERROR, ''Command not found''),
                 (ERROR, ''Make sure AutoPkg is installed and in PATH'')],
         environ = []\<rparr>)
   \<and> fst (configure_munki_repo (\<lambda>h c. CmdNotFound)
        \<lparr>script_dir = ''/opt/autopkg'', abspath = (\<lambda>p. p),
         lfs = (\<lambda>p. if p = ''/repo'' then Some (Dir []) else None)\<rparr>
        \<lparr>repo_path = Some ''/repo'', repos = [], recipes = [''Firefox.munki''],
         sftp_host = None, sftp_port = None, sftp_user = None, sftp_password = None\<rparr>
        \<lparr>calls = [], logs = [], environ = []\<rparr>) = SysExit 1
   \<and> fst (run (\<lambda>h c. if c = trust_info_cmd then CmdNotFound else Exited 0 [] [])
        \<lparr>script_dir = ''/opt/autopkg'', abspath = (\<lambda>p. p),
         lfs = (\<lambda>p. if p = ''/repo'' then Some (Dir []) else None)\<rparr>
        \<lparr>repo_path = None, repos = [], recipes = [''Firefox.munki''],
         sftp_host = None, sftp_port = None, sftp_user = None, sftp_password = None\<rparr>
        \<lparr>calls = [], logs = [], environ = []\<rparr>) = SysExit 1
   \<and> calls (snd (run (\<lambda>h c. if c = trust_info_cmd then CmdNotFound else Exited 0 [] [])
        \<lparr>script_dir = ''/opt/autopkg'', abspath = (\<lambda>p. p),
         lfs = (\<lambda>p. if p = ''/repo'' then Some (Dir []) else None)\<rparr>
        \<lparr>repo_path = None, repos = [], recipes = [''Firefox.munki''],
         sftp_host = None, sftp_port = None, sftp_user = None, sftp_password = None\<rparr>
        \<lparr>calls = [], logs = [], environ = []\<rparr>)) = [trust_info_cmd]"
  by (simp add: run_def then_step_def configure_munki_repo_def configure_trust_info_def
        run_command_def subprocess_run_def launch_def truthy_def log_def
        resolve_repo_path_def path_exists_def isabs_def)

theorem preference_steps_differ_witness:
  "fst (configure_munki_repo (\<lambda>h c. Exited 1 [] [])
        \<lparr>script_dir = ''/opt/autopkg'', abspath = (\<lambda>p. p),
         lfs = (\<lambda>p. if p = ''/repo'' then Some (Dir []) else None)\<rparr>
        \<lparr>repo_path = Some ''/repo'', repos = [], recipes = [''Firefox.munki''],
         sftp_host = None, sftp_port = None, sftp_user = None, sftp_password = None\<rparr>
        \<lparr>calls = [], logs = [], environ = []\<rparr>) = Raise (CalledProcessError 1 [])
   \<and> fst (run (\<lambda>h c. Exited 1 [] [])
        \<lparr>script_dir = ''/opt/autopkg'', abspath = (\<lambda>p. p),
         lfs = (\<lambda>p. if p = ''/repo'' then Some (Dir []) else None)\<rparr>
        \<lparr>repo_path = Some ''/repo'', repos = [], recipes = [''Firefox.munki''],
         sftp_host = None, sftp_port = None, sftp_user = None, sftp_password = None\<rparr>
        \<lparr>calls = [], logs = [], environ = []\<rparr>) = SysExit 1
   \<and> configure_trust_info (\<lambda>h c. Exited 1 [] []) \<lparr>calls = [], logs = [], environ = []\<rparr>
      = (Return (),
         \<lparr>calls = [trust_info_cmd],
          logs = [(INFO, ''Configuring AutoPkg trust info preference...''),
                  (ERROR, ''Command failed''),
                  (WARNING, ''Failed to configure trust info preference'')],
          environ = []\<rparr>)
   \<and> fst (run (\<lambda>h c. if c = trust_info_cmd then OSFailure else Exited 0 [] [])
        \<lparr>script_dir = ''/opt/autopkg'', abspath = (\<lambda>p. p),
         lfs = (\<lambda>p. if p = ''/repo'' then Some (Dir []) else None)\<rparr>
        \<lparr>repo_path = None, repos = [], recipes = [''Firefox.munki''],
         sftp_host = None, sftp_port = None, sftp_user = None, sftp_password = None\<rparr>
        \<lparr>calls = [], logs = [], environ = []\<rparr>) = Return ()
   \<and> calls (snd (run (\<lambda>h c. if c = trust_info_cmd then OSFailure else Exited 0 [] [])
        \<lparr>script_dir = ''/opt/autopkg'', abspath = (\<lambda>p. p),
         lfs = (\<lambda>p. if p = ''/repo'' then Some (Dir []) else None)\<rparr>
        \<lparr>repo_path = None, repos = [], recipes = [''Firefox.munki''],
         sftp_host = None, sftp_port = None, sftp_user = None, sftp_password = None\<rparr>
        \<lparr>calls = [], logs = [], environ = []\<rparr>)) = [trust_info_cmd, recipe_cmd ''Firefox.munki'']
   \<and> fst (configure_trust_info (\<lambda>h c. CmdNotFound) \<lparr>calls = [], logs = [], environ = []\<rparr>) = SysExit 1
   \<and> fst (configure_munki_repo (\<lambda>h c. CmdNotFound)
        \<lparr>script_dir = ''/opt/autopkg'', abspath = (\<lambda>p. p),
         lfs = (\<lambda>p. if p = ''/repo'' then Some (Dir []) else None)\<rparr>
        \<lparr>repo_path = Some ''/repo'', repos = [], recipes = [''Firefox.munki''],
         sftp_host = None, sftp_port = None, sftp_user = None, sftp_password = None\<rparr>
        \<lparr>calls = [], logs = [], environ = []\<rparr>) = SysExit 1
   \<and> calls (snd (run (\<lambda>h c. if c = trust_info_cmd then CmdNotFound else Exited 0 [] [])
        \<lparr>script_dir = ''/opt/autopkg'', abspath = (\<lambda>p. p),
         lfs = (\<lambda>p. if p = ''/repo'' then Some (Dir []) else None)\<rparr>
        \<lparr>repo_path = None, repos = [], recipes = [''Firefox.munki''],
         sftp_host = None, sftp_port = None, sftp_user = None, sftp_password = None\<rparr>
        \<lparr>calls = [], logs = [], environ = []\<rparr>)) = [trust_info_cmd]"
  using preference_steps_differ [of
        "\<lparr>repo_path = None, repos = [], recipes = [''Firefox.munki''],
         sftp_host = None, sftp_port = None, sftp_user = None, sftp_password = None\<rparr>"
        "\<lparr>script_dir = ''/opt/autopkg'', abspath = (\<lambda>p. p),
         lfs = (\<lambda>p. if p = ''/repo'' then Some (Dir []) else None)\<rparr>"
        "(\<lambda>h c. if c = trust_info_cmd then CmdNotFound else Exited 0 [] [])"
        "\<lparr>calls = [], logs = [], environ = []\<rparr>"]
    preference_steps_differ [of
        "\<lparr>repo_path = Some ''/repo'', repos = [], recipes = [''Firefox.munki''],
         sftp_host = None, sftp_port = None, sftp_user = None, sftp_password = None\<rparr>"
        "\<lparr>script_dir = ''/opt/autopkg'', abspath = (\<lambda>p. p),
         lfs = (\<lambda>p. if p = ''/repo'' then Some (Dir []) else None)\<rparr>"
        "(\<lambda>h c. Exited 1 [] [])"
        "\<lparr>calls = [], logs = [], environ = []\<rparr>"]
    preference_steps_differ [of
        "\<lparr>repo_path = None, repos = [], recipes = [''Firefox.munki''],
         sftp_host = None, sftp_port = None, sftp_user = None, sftp_password = None\<rparr>"
        "\<lparr>script_dir = ''/opt/autopkg'', abspath = (\<lambda>p. p),
         lfs = (\<lambda>p. if p = ''/repo'' then Some (Dir []) else None)\<rparr>"
        "(\<lambda>h c. if c = trust_info_cmd then OSFailure else Exited 0 [] [])"
        "\<lparr>calls = [], logs = [], environ = []\<rparr>"]
    preference_steps_differ [of
        "\<lparr>repo_path = Some ''/repo'', repos = [], recipes = [''Firefox.munki''],
         sftp_host = None, sftp_port = None, sftp_user = None, sftp_password = None\<rparr>"
        "\<lparr>script_dir = ''/opt/autopkg'', abspath = (\<lambda>p. p),
         lfs = (\<lambda>p. if p = ''/repo'' then Some (Dir []) else None)\<rparr>"
        "(\<lambda>h c. CmdNotFound)"
        "\<lparr>calls = [], logs = [], environ = []\<rparr>"]
  by (simp add: run_def then_step_def configure_munki_repo_def configure_trust_info_def
        add_repositories_def run_recipes_def
        run_command_def subprocess_run_def launch_def truthy_def log_def
        resolve_repo_path_def path_exists_def isabs_def primitive_fails_def)

section \<open>Claims about the upload mode\<close>

text \<open>
  C4, as amended. When the host, the user name or the password is absent or empty,
  or the repository path is unset, empty or does not exist, \<open>upload_repo\<close> ends the
  process with status 1, the trace of the session is empty (no connection was opened)
  and the server is untouched. An absent port is no error: it defaults to 22 and the
  upload goes on (the counterexample).
\<close>

theorem upload_preconditions:
  assumes "\<not> truthy (sftp_host cfg) \<or> \<not> truthy (sftp_user cfg) \<or> \<not> truthy (sftp_password cfg)
           \<or> \<not> truthy (repo_path cfg)
           \<or> \<not> path_exists env (resolve_repo_path env (the (repo_path cfg)))"
  shows "fst (upload_repo paramiko env nw cfg) = SysExit 1
     \<and> exit_code (fst (upload_repo paramiko env nw cfg)) \<noteq> 0
     \<and> snd (snd (snd (upload_repo paramiko env nw cfg))) = []
     \<and> fst (snd (snd (upload_repo paramiko env nw cfg))) = server nw"
  using assms
  by (auto simp: upload_repo_def Let_def path_exists_def exit_code_def split: option.splits)

theorem upload_preconditions_counterexample:
  "fst (upload_repo True
        \<lparr>script_dir = ''/opt/autopkg'', abspath = (\<lambda>p. p),
         lfs = (\<lambda>p. if p = ''/repo'' then Some (Dir []) else None)\<rparr>
        \<lparr>connect_raises = None, start_client_raises = None,
         auth_password_raises = None, open_sftp_raises = None,
         close_sftp_raises = None, close_transport_raises = None,
         server = \<lparr>rdirs = {}, rfiles = Map.empty, faults = (\<lambda>x. None)\<rparr>\<rparr>
        \<lparr>repo_path = Some ''/repo'', repos = [], recipes = [],
         sftp_host = Some ''sftp.example.org'', sftp_port = None, sftp_user = Some ''munki'',
         sftp_password = Some ''secret''\<rparr>) = Return ()
   \<and> snd (snd (snd (upload_repo True
        \<lparr>script_dir = ''/opt/autopkg'', abspath = (\<lambda>p. p),
         lfs = (\<lambda>p. if p = ''/repo'' then Some (Dir []) else None)\<rparr>
        \<lparr>connect_raises = None, start_client_raises = None,
         auth_password_raises = None, open_sftp_raises = None,
         close_sftp_raises = None, close_transport_raises = None,
         server = \<lparr>rdirs = {}, rfiles = Map.empty, faults = (\<lambda>x. None)\<rparr>\<rparr>
        \<lparr>repo_path = Some ''/repo'', repos = [], recipes = [],
         sftp_host = Some ''sftp.example.org'', sftp_port = None, sftp_user = Some ''munki'',
         sftp_password = Some ''secret''\<rparr>)))
     = [(Connect ''sftp.example.org'' 22, None), (StartClient, None),
        (AuthPassword ''munki'' ''secret'', None), (OpenSftp, None), (Stat ''/'', None),
        (CloseSftp, None), (CloseTransport, None)]"
  by (simp add: upload_repo_def upload_try_def upload_finally_def upload_handler_def truthy_def
        resolve_repo_path_def isabs_def ensure_remote_directory_def sftp_stat_def present_def
        is_dir_def segments_def upload_directory.simps)

theorem upload_preconditions_witness:
  "upload_repo True
        \<lparr>script_dir = ''/opt/autopkg'', abspath = (\<lambda>p. p),
         lfs = (\<lambda>p. if p = ''/repo'' then Some (Dir []) else None)\<rparr>
        \<lparr>connect_raises = None, start_client_raises = None,
         auth_password_raises = None, open_sftp_raises = None,
         close_sftp_raises = None, close_transport_raises = None,
         server = \<lparr>rdirs = {}, rfiles = Map.empty, faults = (\<lambda>x. None)\<rparr>\<rparr>
        \<lparr>repo_path = Some ''/repo'', repos = [], recipes = [],
         sftp_host = Some ''sftp.example.org'', sftp_port = Some 22, sftp_user = Some ''munki'',
         sftp_password = None\<rparr>
     = (SysExit 1, [(ERROR, ''Missing SFTP configuration'')],
        \<lparr>rdirs = {}, rfiles = Map.empty, faults = (\<lambda>x. None)\<rparr>, [])"
  using upload_preconditions [of
        "\<lparr>repo_path = Some ''/repo'', repos = [], recipes = [],
         sftp_host = Some ''sftp.example.org'', sftp_port = Some 22, sftp_user = Some ''munki'',
         sftp_password = None\<rparr>"
        "\<lparr>script_dir = ''/opt/autopkg'', abspath = (\<lambda>p. p),
         lfs = (\<lambda>p. if p = ''/repo'' then Some (Dir []) else None)\<rparr>" True
        "\<lparr>connect_raises = None, start_client_raises = None,
         auth_password_raises = None, open_sftp_raises = None,
         close_sftp_raises = None, close_transport_raises = None,
         server = \<lparr>rdirs = {}, rfiles = Map.empty, faults = (\<lambda>x. None)\<rparr>\<rparr>"]
  by (simp add: upload_repo_def truthy_def)

text \<open>
  C9. On every path of \<open>upload_repo\<close>: when the transport was opened, the last
  operation of the session is the close of the transport; when the channel was
  opened, the close of the channel comes just before it. The closes of the session
  are exactly those of the handles that were opened, once each, and no other
  operation follows a close. What the two closes raise does not change how the call
  ends.
\<close>

theorem connections_closed:
  "((\<exists>h p. (Connect h p, None) \<in> set (snd (snd (snd (upload_repo paramiko env nw cfg)))))
      \<longrightarrow> snd (snd (snd (upload_repo paramiko env nw cfg))) \<noteq> []
          \<and> last (snd (snd (snd (upload_repo paramiko env nw cfg)))) = (CloseTransport, close_transport_raises nw))
   \<and> ((OpenSftp, None) \<in> set (snd (snd (snd (upload_repo paramiko env nw cfg))))
      \<longrightarrow> butlast (snd (snd (snd (upload_repo paramiko env nw cfg)))) \<noteq> []
          \<and> last (butlast (snd (snd (snd (upload_repo paramiko env nw cfg))))) = (CloseSftp, close_sftp_raises nw)
          \<and> last (snd (snd (snd (upload_repo paramiko env nw cfg)))) = (CloseTransport, close_transport_raises nw))
   \<and> filter (\<lambda>x. closing (fst x)) (snd (snd (snd (upload_repo paramiko env nw cfg))))
       = (if (OpenSftp, None) \<in> set (snd (snd (snd (upload_repo paramiko env nw cfg))))
          then [(CloseSftp, close_sftp_raises nw)] else [])
         @ (if \<exists>h p. (Connect h p, None) \<in> set (snd (snd (snd (upload_repo paramiko env nw cfg))))
            then [(CloseTransport, close_transport_raises nw)] else [])
   \<and> snd (snd (snd (upload_repo paramiko env nw cfg)))
       = filter (\<lambda>x. \<not> closing (fst x)) (snd (snd (snd (upload_repo paramiko env nw cfg))))
         @ filter (\<lambda>x. closing (fst x)) (snd (snd (snd (upload_repo paramiko env nw cfg))))
   \<and> fst (upload_repo paramiko env
            (nw\<lparr>close_sftp_raises := a, close_transport_raises := b\<rparr>) cfg)
       = fst (upload_repo paramiko env nw cfg)"
proof -
  define tr where "tr = snd (snd (snd (upload_repo paramiko env nw cfg)))"
  define cs where "cs = (CloseSftp, close_sftp_raises nw)"
  define ct where "ct = (CloseTransport, close_transport_raises nw)"
  from upload_repo_trace_shape[of paramiko env nw cfg] obtain body tp sf where
    t: "tr = body @ (if sf then [cs] else []) @ (if tp then [ct] else [])"
    and nb: "\<forall>x \<in> set body. \<not> closing (fst x)"
    and tp: "tp \<longleftrightarrow> (\<exists>h p. (Connect h p, None) \<in> set body)"
    and sf: "sf \<longleftrightarrow> (OpenSftp, None) \<in> set body"
    and st: "sf \<longrightarrow> tp"
    unfolding tr_def cs_def ct_def by blast
  have cc: "closing (fst cs)" "closing (fst ct)" by (simp_all add: cs_def ct_def)
  have tp': "(\<exists>h p. (Connect h p, None) \<in> set tr) = tp"
    unfolding t using tp by (auto simp: cs_def ct_def)
  have sf': "((OpenSftp, None) \<in> set tr) = sf"
    unfolding t using sf by (auto simp: cs_def ct_def)
  note l = closes_come_last[OF t nb cc st]
  have 1: "(\<exists>h p. (Connect h p, None) \<in> set tr) \<longrightarrow> tr \<noteq> [] \<and> last tr = ct"
    using l(1) by (simp only: tp')
  have 2: "(OpenSftp, None) \<in> set tr
      \<longrightarrow> butlast tr \<noteq> [] \<and> last (butlast tr) = cs \<and> last tr = ct"
    using l(2) by (simp only: sf')
  have 3: "filter (\<lambda>x. closing (fst x)) tr
       = (if (OpenSftp, None) \<in> set tr then [cs] else [])
         @ (if \<exists>h p. (Connect h p, None) \<in> set tr then [ct] else [])"
    using l(3) by (simp only: sf' tp')
  note 4 = l(4)
  have 5: "fst (upload_repo paramiko env
            (nw\<lparr>close_sftp_raises := a, close_transport_raises := b\<rparr>) cfg)
       = fst (upload_repo paramiko env nw cfg)"
    by (simp add: upload_repo_def Let_def upload_try_close_indep
          split: option.splits prod.splits)
  have "((\<exists>h p. (Connect h p, None) \<in> set tr) \<longrightarrow> tr \<noteq> [] \<and> last tr = ct)
   \<and> ((OpenSftp, None) \<in> set tr
      \<longrightarrow> butlast tr \<noteq> [] \<and> last (butlast tr) = cs \<and> last tr = ct)
   \<and> filter (\<lambda>x. closing (fst x)) tr
       = (if (OpenSftp, None) \<in> set tr then [cs] else [])
         @ (if \<exists>h p. (Connect h p, None) \<in> set tr then [ct] else [])
   \<and> tr = filter (\<lambda>x. \<not> closing (fst x)) tr @ filter (\<lambda>x. closing (fst x)) tr
   \<and> fst (upload_repo paramiko env
            (nw\<lparr>close_sftp_raises := a, close_transport_raises := b\<rparr>) cfg)
       = fst (upload_repo paramiko env nw cfg)"
    by (intro conjI 1 2 3 4 5)
  then show ?thesis unfolding tr_def cs_def ct_def .
qed

theorem connections_closed_witness:
  "upload_repo True
        \<lparr>script_dir = ''/opt/autopkg'', abspath = (\<lambda>p. p),
         lfs = (\<lambda>p. if p = ''/repo'' then Some (Dir []) else None)\<rparr>
        \<lparr>connect_raises = None, start_client_raises = None,
         auth_password_raises = Some AuthenticationException, open_sftp_raises = None,
         close_sftp_raises = None, close_transport_raises = Some SSHException,
         server = \<lparr>rdirs = {}, rfiles = Map.empty, faults = (\<lambda>x. None)\<rparr>\<rparr>
        \<lparr>repo_path = Some ''/repo'', repos = [], recipes = [],
         sftp_host = Some ''sftp.example.org'', sftp_port = Some 2222, sftp_user = Some ''munki'',
         sftp_password = Some ''secret''\<rparr>
     = (SysExit 1,
        [(ERROR, ''SFTP authentication failed - check username/password in config'')],
        \<lparr>rdirs = {}, rfiles = Map.empty, faults = (\<lambda>x. None)\<rparr>,
        [(Connect ''sftp.example.org'' 2222, None), (StartClient, None),
         (AuthPassword ''munki'' ''secret'', Some AuthenticationException),
         (CloseTransport, Some SSHException)])
   \<and> upload_repo True
        \<lparr>script_dir = ''/opt/autopkg'', abspath = (\<lambda>p. p),
         lfs = (\<lambda>p. if p = ''/repo'' then Some (Dir []) else None)\<rparr>
        \<lparr>connect_raises = None, start_client_raises = None,
         auth_password_raises = None, open_sftp_raises = None,
         close_sftp_raises = Some IOError, close_transport_raises = Some SSHException,
         server = \<lparr>rdirs = {}, rfiles = Map.empty, faults = (\<lambda>x. None)\<rparr>\<rparr>
        \<lparr>repo_path = Some ''/repo'', repos = [], recipes = [],
         sftp_host = Some ''sftp.example.org'', sftp_port = Some 2222, sftp_user = Some ''munki'',
         sftp_password = Some ''secret''\<rparr>
     = (Return (),
        [(INFO, ''Repository upload completed successfully'')],
        \<lparr>rdirs = {}, rfiles = Map.empty, faults = (\<lambda>x. None)\<rparr>,
        [(Connect ''sftp.example.org'' 2222, None), (StartClient, None),
         (AuthPassword ''munki'' ''secret'', None), (OpenSftp, None), (Stat ''/'', None),
         (CloseSftp, Some IOError), (CloseTransport, Some SSHException)])"
  using connections_closed [of True
        "\<lparr>script_dir = ''/opt/autopkg'', abspath = (\<lambda>p. p),
         lfs = (\<lambda>p. if p = ''/repo'' then Some (Dir []) else None)\<rparr>"
        "\<lparr>connect_raises = None, start_client_raises = None,
         auth_password_raises = Some AuthenticationException, open_sftp_raises = None,
         close_sftp_raises = None, close_transport_raises = Some SSHException,
         server = \<lparr>rdirs = {}, rfiles = Map.empty, faults = (\<lambda>x. None)\<rparr>\<rparr>"
        "\<lparr>repo_path = Some ''/repo'', repos = [], recipes = [],
         sftp_host = Some ''sftp.example.org'', sftp_port = Some 2222, sftp_user = Some ''munki'',
         sftp_password = Some ''secret''\<rparr>" None None]
    connections_closed [of True
        "\<lparr>script_dir = ''/opt/autopkg'', abspath = (\<lambda>p. p),
         lfs = (\<lambda>p. if p = ''/repo'' then Some (Dir []) else None)\<rparr>"
        "\<lparr>connect_raises = None, start_client_raises = None,
         auth_password_raises = None, open_sftp_raises = None,
         close_sftp_raises = Some IOError, close_transport_raises = Some SSHException,
         server = \<lparr>rdirs = {}, rfiles = Map.empty, faults = (\<lambda>x. None)\<rparr>\<rparr>"
        "\<lparr>repo_path = Some ''/repo'', repos = [], recipes = [],
         sftp_host = Some ''sftp.example.org'', sftp_port = Some 2222, sftp_user = Some ''munki'',
         sftp_password = Some ''secret''\<rparr>" None None]
  by (simp add: upload_repo_def upload_try_def upload_finally_def upload_handler_def truthy_def
        resolve_repo_path_def isabs_def upload_directory.simps ensure_remote_directory_def
        sftp_stat_def present_def is_dir_def segments_def)

section \<open>Claims about the recursive mirror\<close>

text \<open>
  C1. For every well-formed local tree and every remote root, when \<open>upload_directory\<close>
  returns without an exception, every file of the tree is on the server at the
  segments of the root followed by the names on the way to the file, with the
  contents of the local file.
\<close>

theorem mirror_content:
  assumes "wf_node n" and "fst (upload_directory s n R) = None"
  shows "\<forall>(q, c) \<in> set (files_of n).
           rfiles (fst (snd (upload_directory s n R))) (segments R @ q) = Some c"
proof (cases n)
  case (File c)
  have "fst (exec s (plan n R)) \<noteq> None"
    unfolding File by (simp split: prod.splits option.splits)
  then have "fst (upload_directory s n R) \<noteq> None"
    by (simp add: upload_is_exec)
  with assms(2) show ?thesis by simp
next
  case (Dir items)
  let ?s' = "fst (snd (upload_directory s n R))"
  let ?tr = "snd (snd (upload_directory s n R))"
  from upload_exec_triple[of s n R] assms(2)
  have ex: "exec s (plan n R) = (None, ?s', ?tr)" by simp
  note d = plan_puts_distinct[OF assms(1), of R]
  have k: "map (\<lambda>y. (segments (fst y), snd y)) (puts (plan n R))
            = map (\<lambda>(q, c). (segments R @ q, c)) (files_of n)"
    using plan_puts_keys(1)[OF assms(1), of R] Dir by simp
  show ?thesis
  proof (clarify)
    fix q c assume "(q, c) \<in> set (files_of n)"
    then have "(segments R @ q, c) \<in> set (map (\<lambda>(q, c). (segments R @ q, c)) (files_of n))"
      by force
    with k have "(segments R @ q, c) \<in> set (map (\<lambda>y. (segments (fst y), snd y)) (puts (plan n R)))"
      by simp
    then obtain rp where rp: "(rp, c) \<in> set (puts (plan n R))" and sg: "segments rp = segments R @ q"
      by auto
    from exec_all_put[OF ex rp] have "(Put rp c, None) \<in> set ?tr" .
    from exec_puts_remain[OF d ex this] sg show "rfiles ?s' (segments R @ q) = Some c" by simp
  qed
qed


theorem mirror_content_witness:
  "wf_node (Dir [(''pkgs'', Dir [(''a.pkg'', File ''abc'')]), (''catalog'', File ''xyz'')])
   \<and> fst (upload_directory \<lparr>rdirs = {}, rfiles = Map.empty, faults = (\<lambda>x. None)\<rparr>
          (Dir [(''pkgs'', Dir [(''a.pkg'', File ''abc'')]), (''catalog'', File ''xyz'')]) ''/repo'') = None
   \<and> rfiles (fst (snd (upload_directory \<lparr>rdirs = {}, rfiles = Map.empty, faults = (\<lambda>x. None)\<rparr>
          (Dir [(''pkgs'', Dir [(''a.pkg'', File ''abc'')]), (''catalog'', File ''xyz'')]) ''/repo''))) [''repo'', ''pkgs'', ''a.pkg''] = Some ''abc''
   \<and> rfiles (fst (snd (upload_directory \<lparr>rdirs = {}, rfiles = Map.empty, faults = (\<lambda>x. None)\<rparr>
          (Dir [(''pkgs'', Dir [(''a.pkg'', File ''abc'')]), (''catalog'', File ''xyz'')]) ''/repo''))) [''repo'', ''catalog''] = Some ''xyz''"
proof -
  have w: "wf_node (Dir [(''pkgs'', Dir [(''a.pkg'', File ''abc'')]), (''catalog'', File ''xyz'')])"
    by (simp add: valid_name_def)
  have r: "fst (upload_directory \<lparr>rdirs = {}, rfiles = Map.empty, faults = (\<lambda>x. None)\<rparr>
          (Dir [(''pkgs'', Dir [(''a.pkg'', File ''abc'')]), (''catalog'', File ''xyz'')]) ''/repo'') = None"
    by (simp add: upload_directory.simps ensure_remote_directory_def sftp_stat_def
      sftp_mkdir_def sftp_put_def present_def is_dir_def segments_def rstrip_slash_def Let_def)
  have sg: "segments ''/repo'' = [''repo'']" by (simp add: segments_def)
  from mirror_content [OF w r] sg w r show ?thesis by simp
qed


text \<open>
  C8. A failed transfer can only be the last operation of the walk: its exception is
  the result of \<open>upload_directory\<close> and nothing is attempted after it. Nothing is
  rolled back: every transfer of the walk that succeeded (for a well-formed tree) is
  still on the server, with its contents, when the walk ends. In \<open>upload_repo\<close> an
  exception of the walk ends the process with status 1; the server is left as the
  walk left it, and after the walk only the two closes follow.
\<close>

theorem transfer_failure_aborts:
  "(\<forall>x \<in> set (butlast (snd (snd (upload_directory s n R)))). \<not> failed_put x)
   \<and> (\<forall>p c e. (Put p c, Some e) \<in> set (snd (snd (upload_directory s n R)))
        \<longrightarrow> fst (upload_directory s n R) = Some e
            \<and> last (snd (snd (upload_directory s n R))) = (Put p c, Some e))
   \<and> (wf_node n \<longrightarrow>
        (\<forall>p c. (Put p c, None) \<in> set (snd (snd (upload_directory s n R)))
           \<longrightarrow> rfiles (fst (snd (upload_directory s n R))) (segments p) = Some c))
   \<and> (paramiko \<and> truthy (sftp_host cfg) \<and> truthy (sftp_user cfg) \<and> truthy (sftp_password cfg)
        \<and> truthy (repo_path cfg)
        \<and> lfs env (resolve_repo_path env (the (repo_path cfg))) = Some tree
        \<and> connect_raises nw = None \<and> start_client_raises nw = None
        \<and> auth_password_raises nw = None \<and> open_sftp_raises nw = None
        \<and> fst (upload_directory (server nw) tree ''/'') \<noteq> None
      \<longrightarrow> fst (upload_repo paramiko env nw cfg) = SysExit 1
          \<and> exit_code (fst (upload_repo paramiko env nw cfg)) \<noteq> 0
          \<and> fst (snd (snd (upload_repo paramiko env nw cfg)))
              = fst (snd (upload_directory (server nw) tree ''/''))
          \<and> snd (snd (snd (upload_repo paramiko env nw cfg)))
              = [(Connect (the (sftp_host cfg)) (case sftp_port cfg of None \<Rightarrow> 22 | Some n \<Rightarrow> n), None),
                 (StartClient, None),
                 (AuthPassword (the (sftp_user cfg)) (the (sftp_password cfg)), None),
                 (OpenSftp, None)]
                @ snd (snd (upload_directory (server nw) tree ''/''))
                @ [(CloseSftp, close_sftp_raises nw), (CloseTransport, close_transport_raises nw)])"
proof -
  let ?r = "fst (upload_directory s n R)"
  let ?s' = "fst (snd (upload_directory s n R))"
  let ?tr = "snd (snd (upload_directory s n R))"
  have ex: "exec s (plan n R) = (?r, ?s', ?tr)" by (rule upload_exec_triple)
  note fp = exec_failed_put_last[OF ex]
  from fp have 1: "\<forall>x \<in> set (butlast ?tr). \<not> failed_put x" by blast
  have 2: "?r = Some e \<and> last ?tr = (Put p c, Some e)" if m: "(Put p c, Some e) \<in> set ?tr" for p c e
  proof -
    from m have ne: "?tr \<noteq> []" by auto
    have f: "failed_put (Put p c, Some e)" by simp
    with 1 have "(Put p c, Some e) \<notin> set (butlast ?tr)" by blast
    with m ne have l: "last ?tr = (Put p c, Some e)"
      by (simp add: in_set_not_butlast)
    with fp ne f show ?thesis by simp
  qed
  have 3: "rfiles ?s' (segments p) = Some c" if w: "wf_node n" and m: "(Put p c, None) \<in> set ?tr" for p c
    using exec_puts_remain[OF plan_puts_distinct[OF w, of R] ex m] .
  have 4: "fst (upload_repo paramiko env nw cfg) = SysExit 1
          \<and> exit_code (fst (upload_repo paramiko env nw cfg)) \<noteq> 0
          \<and> fst (snd (snd (upload_repo paramiko env nw cfg)))
              = fst (snd (upload_directory (server nw) tree ''/''))
          \<and> snd (snd (snd (upload_repo paramiko env nw cfg)))
              = [(Connect (the (sftp_host cfg)) (case sftp_port cfg of None \<Rightarrow> 22 | Some n \<Rightarrow> n), None),
                 (StartClient, None),
                 (AuthPassword (the (sftp_user cfg)) (the (sftp_password cfg)), None),
                 (OpenSftp, None)]
                @ snd (snd (upload_directory (server nw) tree ''/''))
                @ [(CloseSftp, close_sftp_raises nw), (CloseTransport, close_transport_raises nw)]"
    if h: "paramiko" "truthy (sftp_host cfg)" "truthy (sftp_user cfg)" "truthy (sftp_password cfg)"
        "truthy (repo_path cfg)"
        "lfs env (resolve_repo_path env (the (repo_path cfg))) = Some tree"
        "connect_raises nw = None" "start_client_raises nw = None"
        "auth_password_raises nw = None" "open_sftp_raises nw = None"
        "fst (upload_directory (server nw) tree ''/'') \<noteq> None"
  proof -
    obtain e s1 t1 where u: "upload_directory (server nw) tree ''/'' = (Some e, s1, t1)"
      using h(11) by (cases "upload_directory (server nw) tree ''/''") auto
    with h show ?thesis
      by (simp add: upload_repo_def upload_try_def upload_finally_def upload_handler_def
            exit_code_def Let_def)
  qed
  from 1 2 3 4 show ?thesis by blast
qed

theorem transfer_failure_aborts_witness:
  "fst (upload_repo True
        \<lparr>script_dir = ''/opt/autopkg'', abspath = (\<lambda>p. p),
         lfs = (\<lambda>p. if p = ''/repo''
                    then Some (Dir [(''pkgs'', Dir [(''a.pkg'', File ''abc''), (''b.pkg'', File ''def'')]),
              (''catalog'', File ''xyz'')])
                    else None)\<rparr>
        \<lparr>connect_raises = None, start_client_raises = None,
         auth_password_raises = None, open_sftp_raises = None,
         close_sftp_raises = None, close_transport_raises = None,
         server = \<lparr>rdirs = {}, rfiles = Map.empty,
                    faults = (\<lambda>x. if x = Put ''/pkgs/b.pkg'' ''def'' then Some IOError else None)\<rparr>\<rparr>
        \<lparr>repo_path = Some ''/repo'', repos = [], recipes = [],
         sftp_host = Some ''sftp.example.org'', sftp_port = None, sftp_user = Some ''munki'',
         sftp_password = Some ''secret''\<rparr>) = SysExit 1
   \<and> snd (snd (snd (upload_repo True
        \<lparr>script_dir = ''/opt/autopkg'', abspath = (\<lambda>p. p),
         lfs = (\<lambda>p. if p = ''/repo''
                    then Some (Dir [(''pkgs'', Dir [(''a.pkg'', File ''abc''), (''b.pkg'', File ''def'')]),
              (''catalog'', File ''xyz'')])
                    else None)\<rparr>
        \<lparr>connect_raises = None, start_client_raises = None,
         auth_password_raises = None, open_sftp_raises = None,
         close_sftp_raises = None, close_transport_raises = None,
         server = \<lparr>rdirs = {}, rfiles = Map.empty,
                    faults = (\<lambda>x. if x = Put ''/pkgs/b.pkg'' ''def'' then Some IOError else None)\<rparr>\<rparr>
        \<lparr>repo_path = Some ''/repo'', repos = [], recipes = [],
         sftp_host = Some ''sftp.example.org'', sftp_port = None, sftp_user = Some ''munki'',
         sftp_password = Some ''secret''\<rparr>)))
     = [(Connect ''sftp.example.org'' 22, None), (StartClient, None),
        (AuthPassword ''munki'' ''secret'', None), (OpenSftp, None),
        (Stat ''/'', None),
        (Stat ''/pkgs'', Some FileNotFoundError), (Stat ''/pkgs'', Some FileNotFoundError),
        (Mkdir ''/pkgs'', None),
        (Put ''/pkgs/a.pkg'' ''abc'', None),
        (Put ''/pkgs/b.pkg'' ''def'', Some IOError),
        (CloseSftp, None), (CloseTransport, None)]
   \<and> rfiles (fst (snd (snd (upload_repo True
        \<lparr>script_dir = ''/opt/autopkg'', abspath = (\<lambda>p. p),
         lfs = (\<lambda>p. if p = ''/repo''
                    then Some (Dir [(''pkgs'', Dir [(''a.pkg'', File ''abc''), (''b.pkg'', File ''def'')]),
              (''catalog'', File ''xyz'')])
                    else None)\<rparr>
        \<lparr>connect_raises = None, start_client_raises = None,
         auth_password_raises = None, open_sftp_raises = None,
         close_sftp_raises = None, close_transport_raises = None,
         server = \<lparr>rdirs = {}, rfiles = Map.empty,
                    faults = (\<lambda>x. if x = Put ''/pkgs/b.pkg'' ''def'' then Some IOError else None)\<rparr>\<rparr>
        \<lparr>repo_path = Some ''/repo'', repos = [], recipes = [],
         sftp_host = Some ''sftp.example.org'', sftp_port = None, sftp_user = Some ''munki'',
         sftp_password = Some ''secret''\<rparr>)))) [''pkgs'', ''a.pkg''] = Some ''abc''"
proof -
  let ?s = "server \<lparr>connect_raises = None, start_client_raises = None,
         auth_password_raises = None, open_sftp_raises = None,
         close_sftp_raises = None, close_transport_raises = None,
         server = \<lparr>rdirs = {}, rfiles = Map.empty,
                    faults = (\<lambda>x. if x = Put ''/pkgs/b.pkg'' ''def'' then Some IOError else None)\<rparr>\<rparr>"
  let ?T = "(Dir [(''pkgs'', Dir [(''a.pkg'', File ''abc''), (''b.pkg'', File ''def'')]),
              (''catalog'', File ''xyz'')])"
  have w: "wf_node ?T" by (simp add: valid_name_def)
  have u: "snd (snd (upload_directory ?s ?T ''/''))
     = [(Stat ''/'', None),
        (Stat ''/pkgs'', Some FileNotFoundError), (Stat ''/pkgs'', Some FileNotFoundError),
        (Mkdir ''/pkgs'', None),
        (Put ''/pkgs/a.pkg'' ''abc'', None),
        (Put ''/pkgs/b.pkg'' ''def'', Some IOError)]"
    by (simp add: upload_directory.simps ensure_remote_directory_def sftp_stat_def
      sftp_mkdir_def sftp_put_def present_def is_dir_def segments_def rstrip_slash_def Let_def)
  have r: "fst (upload_directory ?s ?T ''/'') \<noteq> None"
    by (simp add: upload_directory.simps ensure_remote_directory_def sftp_stat_def
      sftp_mkdir_def sftp_put_def present_def is_dir_def segments_def rstrip_slash_def Let_def)
  have sg: "segments ''/pkgs/a.pkg'' = [''pkgs'', ''a.pkg'']" by (simp add: segments_def)
  from transfer_failure_aborts [of ?s ?T "''/''" True
        "\<lparr>repo_path = Some ''/repo'', repos = [], recipes = [],
         sftp_host = Some ''sftp.example.org'', sftp_port = None, sftp_user = Some ''munki'',
         sftp_password = Some ''secret''\<rparr>"
        "\<lparr>script_dir = ''/opt/autopkg'', abspath = (\<lambda>p. p),
         lfs = (\<lambda>p. if p = ''/repo''
                    then Some (Dir [(''pkgs'', Dir [(''a.pkg'', File ''abc''), (''b.pkg'', File ''def'')]),
              (''catalog'', File ''xyz'')])
                    else None)\<rparr>"
        ?T
        "\<lparr>connect_raises = None, start_client_raises = None,
         auth_password_raises = None, open_sftp_raises = None,
         close_sftp_raises = None, close_transport_raises = None,
         server = \<lparr>rdirs = {}, rfiles = Map.empty,
                    faults = (\<lambda>x. if x = Put ''/pkgs/b.pkg'' ''def'' then Some IOError else None)\<rparr>\<rparr>"] w u r sg
  show ?thesis
    by (simp add: truthy_def resolve_repo_path_def isabs_def)
qed


text \<open>
  C3. Whatever directories and files the server already holds, and whatever
  \<^verbatim>\<open>mkdir\<close> raises (also "already exists", after a probe that missed the segment):
  as long as a probe either returns or reports the path absent,
  \<open>ensure_remote_directory\<close> returns without an exception, and an exception of the
  whole walk can only come from a transfer or from listing the local directory. With
  probes that do not fail, \<^verbatim>\<open>mkdir\<close> is attempted only for segments the server did
  not hold; a directory that exists is found by the first probe and nothing is
  changed. The step never removes a directory and never touches a file.
\<close>

theorem ensure_tolerates_existing:
  "((\<forall>p e. faults s (Stat p) = Some e \<longrightarrow> e = FileNotFoundError)
      \<longrightarrow> fst (ensure_remote_directory s rd) = None
        \<and> (\<forall>e. fst (upload_directory s n R) = Some e
             \<longrightarrow> e = NotADirectoryError
               \<or> (snd (snd (upload_directory s n R)) \<noteq> []
                  \<and> (\<exists>p c. last (snd (snd (upload_directory s n R))) = (Put p c, Some e)))))
   \<and> ((\<forall>p. faults s (Stat p) = None)
      \<longrightarrow> (\<forall>p m. (Mkdir p, m) \<in> set (snd (snd (ensure_remote_directory s rd)))
             \<longrightarrow> \<not> present s (segments p)))
   \<and> (faults s (Stat rd) = None \<and> present s (segments rd)
      \<longrightarrow> ensure_remote_directory s rd = (None, s, [(Stat rd, None)]))
   \<and> rdirs s \<subseteq> rdirs (fst (snd (ensure_remote_directory s rd)))
   \<and> rfiles (fst (snd (ensure_remote_directory s rd))) = rfiles s"
proof -
  let ?e = "ensure_remote_directory s rd"
  have et: "?e = (fst ?e, fst (snd ?e), snd (snd ?e))" by simp
  have 1: "fst ?e = None
        \<and> (\<forall>e. fst (upload_directory s n R) = Some e
             \<longrightarrow> e = NotADirectoryError
               \<or> (snd (snd (upload_directory s n R)) \<noteq> []
                  \<and> (\<exists>p c. last (snd (snd (upload_directory s n R))) = (Put p c, Some e))))"
    if h: "\<forall>p e. faults s (Stat p) = Some e \<longrightarrow> e = FileNotFoundError"
  proof -
    have "e = NotADirectoryError
               \<or> (snd (snd (upload_directory s n R)) \<noteq> []
                  \<and> (\<exists>p c. last (snd (snd (upload_directory s n R))) = (Put p c, Some e)))"
      if u: "fst (upload_directory s n R) = Some e" for e
    proof -
      from upload_exec_triple[of s n R] u
      have "exec s (plan n R) = (Some e, fst (snd (upload_directory s n R)),
              snd (snd (upload_directory s n R)))" by simp
      from exec_fail_origin[OF h this] show ?thesis .
    qed
    with ensure_returns[OF h, of rd] show ?thesis by blast
  qed
  have 2: "\<forall>p m. (Mkdir p, m) \<in> set (snd (snd ?e)) \<longrightarrow> \<not> present s (segments p)"
    if h: "\<forall>p. faults s (Stat p) = None"
    using ensure_skips[OF h et] .
  have 3: "?e = (None, s, [(Stat rd, None)])"
    if "faults s (Stat rd) = None \<and> present s (segments rd)"
    using that by (simp add: ensure_remote_directory_def sftp_stat_def)
  from ensure_frame[OF et]
  have 4: "rdirs s \<subseteq> rdirs (fst (snd ?e))" "rfiles (fst (snd ?e)) = rfiles s" by simp_all
  from 1 2 3 4 show ?thesis by blast
qed

theorem ensure_tolerates_existing_witness:
  "fst (ensure_remote_directory
         \<lparr>rdirs = {[''repo'']}, rfiles = Map.empty,
          faults = (\<lambda>x. if x = Stat ''/repo'' then Some FileNotFoundError else None)\<rparr>
         ''/repo'') = None
   \<and> snd (snd (ensure_remote_directory
         \<lparr>rdirs = {[''repo'']}, rfiles = Map.empty,
          faults = (\<lambda>x. if x = Stat ''/repo'' then Some FileNotFoundError else None)\<rparr>
         ''/repo''))
      = [(Stat ''/repo'', Some FileNotFoundError), (Stat ''/repo'', Some FileNotFoundError),
         (Mkdir ''/repo'', Some IOError)]
   \<and> ensure_remote_directory
         \<lparr>rdirs = {[''repo'']}, rfiles = Map.empty, faults = (\<lambda>x. None)\<rparr> ''/repo''
      = (None, \<lparr>rdirs = {[''repo'']}, rfiles = Map.empty, faults = (\<lambda>x. None)\<rparr>,
         [(Stat ''/repo'', None)])
   \<and> snd (snd (ensure_remote_directory
         \<lparr>rdirs = {[''repo'']}, rfiles = Map.empty, faults = (\<lambda>x. None)\<rparr> ''/repo/A''))
      = [(Stat ''/repo/A'', Some FileNotFoundError), (Stat ''/repo'', None),
         (Stat ''/repo/A'', Some FileNotFoundError), (Mkdir ''/repo/A'', None)]
   \<and> fst (upload_directory
         \<lparr>rdirs = {[''repo'']}, rfiles = Map.empty, faults = (\<lambda>x. None)\<rparr>
         (Dir [(''A'', Dir [(''file.txt'', File ''data'')])]) ''/repo'') = None"
  using ensure_tolerates_existing [of
         "\<lparr>rdirs = {[''repo'']}, rfiles = Map.empty,
          faults = (\<lambda>x. if x = Stat ''/repo'' then Some FileNotFoundError else None)\<rparr>"
         "''/repo''" "Dir []" "''/repo''"]
    ensure_tolerates_existing [of
         "\<lparr>rdirs = {[''repo'']}, rfiles = Map.empty, faults = (\<lambda>x. None)\<rparr>"
         "''/repo''" "Dir [(''A'', Dir [(''file.txt'', File ''data'')])]" "''/repo''"]
    ensure_tolerates_existing [of
         "\<lparr>rdirs = {[''repo'']}, rfiles = Map.empty, faults = (\<lambda>x. None)\<rparr>"
         "''/repo/A''" "Dir []" "''/repo''"]
  by (simp add: upload_directory.simps ensure_remote_directory_def sftp_stat_def
      sftp_mkdir_def sftp_put_def present_def is_dir_def segments_def rstrip_slash_def Let_def)


text \<open>
  C2. In the trace of \<open>upload_directory\<close> on a well-formed tree, on any server and
  for any remote root, every \<^verbatim>\<open>mkdir\<close> and every transfer comes after the entry
  that ensured the parent of its path (a probe that found the parent, or the attempt
  to create it), unless the parent is the root. For the tree \<^verbatim>\<open>A/B/file.txt\<close>
  mirrored to \<^verbatim>\<open>/repo\<close> on an empty server, the operations that create something
  are, in order: \<^verbatim>\<open>/repo\<close>, \<^verbatim>\<open>/repo/A\<close>, \<^verbatim>\<open>/repo/A/B\<close>, then the transfer of
  \<^verbatim>\<open>/repo/A/B/file.txt\<close>.
\<close>

theorem parent_before_child:
  "(wf_node n \<longrightarrow> dirs_first {[]} (snd (snd (upload_directory s n R))))
   \<and> map fst (filter (\<lambda>x. creates (fst x) \<noteq> None \<and> snd x = None)
        (snd (snd (upload_directory
           \<lparr>rdirs = {}, rfiles = Map.empty, faults = (\<lambda>x. None)\<rparr>
           (Dir [(''A'', Dir [(''B'', Dir [(''file.txt'', File c)])])]) ''/repo''))))
     = [Mkdir ''/repo'', Mkdir ''/repo/A'', Mkdir ''/repo/A/B'', Put ''/repo/A/B/file.txt'' c]"
proof -
  have 1: "dirs_first {[]} (snd (snd (upload_directory s n R)))" if w: "wf_node n"
  proof -
    have "exec s (plan n R)
           = (fst (upload_directory s n R), fst (snd (upload_directory s n R)),
              snd (snd (upload_directory s n R)))" by (rule upload_exec_triple)
    from exec_dirs_first[OF plan_ok_plan(1)[OF w] _ this] show ?thesis by simp
  qed
  have 2: "map fst (filter (\<lambda>x. creates (fst x) \<noteq> None \<and> snd x = None)
        (snd (snd (upload_directory
           \<lparr>rdirs = {}, rfiles = Map.empty, faults = (\<lambda>x. None)\<rparr>
           (Dir [(''A'', Dir [(''B'', Dir [(''file.txt'', File c)])])]) ''/repo''))))
     = [Mkdir ''/repo'', Mkdir ''/repo/A'', Mkdir ''/repo/A/B'', Put ''/repo/A/B/file.txt'' c]"
    by (simp add: upload_directory.simps ensure_remote_directory_def sftp_stat_def
      sftp_mkdir_def sftp_put_def present_def is_dir_def segments_def rstrip_slash_def Let_def)
  from 1 2 show ?thesis by blast
qed

theorem parent_before_child_witness:
  "wf_node (Dir [(''A'', Dir [(''B'', Dir [(''file.txt'', File ''data'')])])])
   \<and> snd (snd (upload_directory
           \<lparr>rdirs = {}, rfiles = Map.empty, faults = (\<lambda>x. None)\<rparr>
           (Dir [(''A'', Dir [(''B'', Dir [(''file.txt'', File ''data'')])])]) ''/repo''))
     = [(Stat ''/repo'', Some FileNotFoundError),
        (Stat ''/repo'', Some FileNotFoundError), (Mkdir ''/repo'', None),
        (Stat ''/repo/A'', Some FileNotFoundError), (Stat ''/repo'', None),
        (Stat ''/repo/A'', Some FileNotFoundError), (Mkdir ''/repo/A'', None),
        (Stat ''/repo/A/B'', Some FileNotFoundError), (Stat ''/repo'', None),
        (Stat ''/repo/A'', None), (Stat ''/repo/A/B'', Some FileNotFoundError),
        (Mkdir ''/repo/A/B'', None), (Put ''/repo/A/B/file.txt'' ''data'', None)]
   \<and> dirs_first {[]}
        [(Stat ''/repo'', Some FileNotFoundError),
        (Stat ''/repo'', Some FileNotFoundError), (Mkdir ''/repo'', None),
        (Stat ''/repo/A'', Some FileNotFoundError), (Stat ''/repo'', None),
        (Stat ''/repo/A'', Some FileNotFoundError), (Mkdir ''/repo/A'', None),
        (Stat ''/repo/A/B'', Some FileNotFoundError), (Stat ''/repo'', None),
        (Stat ''/repo/A'', None), (Stat ''/repo/A/B'', Some FileNotFoundError),
        (Mkdir ''/repo/A/B'', None), (Put ''/repo/A/B/file.txt'' ''data'', None)]"
proof -
  have w: "wf_node (Dir [(''A'', Dir [(''B'', Dir [(''file.txt'', File ''data'')])])])"
    by (simp add: valid_name_def)
  have t: "snd (snd (upload_directory
           \<lparr>rdirs = {}, rfiles = Map.empty, faults = (\<lambda>x. None)\<rparr>
           (Dir [(''A'', Dir [(''B'', Dir [(''file.txt'', File ''data'')])])]) ''/repo''))
     = [(Stat ''/repo'', Some FileNotFoundError),
        (Stat ''/repo'', Some FileNotFoundError), (Mkdir ''/repo'', None),
        (Stat ''/repo/A'', Some FileNotFoundError), (Stat ''/repo'', None),
        (Stat ''/repo/A'', Some FileNotFoundError), (Mkdir ''/repo/A'', None),
        (Stat ''/repo/A/B'', Some FileNotFoundError), (Stat ''/repo'', None),
        (Stat ''/repo/A'', None), (Stat ''/repo/A/B'', Some FileNotFoundError),
        (Mkdir ''/repo/A/B'', None), (Put ''/repo/A/B/file.txt'' ''data'', None)]"
    by (simp add: upload_directory.simps ensure_remote_directory_def sftp_stat_def
      sftp_mkdir_def sftp_put_def present_def is_dir_def segments_def rstrip_slash_def Let_def)
  from parent_before_child [of
         "Dir [(''A'', Dir [(''B'', Dir [(''file.txt'', File ''data'')])])]"
         "\<lparr>rdirs = {}, rfiles = Map.empty, faults = (\<lambda>x. None)\<rparr>" "''/repo''" "''data''"] w
  have "dirs_first {[]} (snd (snd (upload_directory
           \<lparr>rdirs = {}, rfiles = Map.empty, faults = (\<lambda>x. None)\<rparr>
           (Dir [(''A'', Dir [(''B'', Dir [(''file.txt'', File ''data'')])])]) ''/repo'')))"
    by blast
  with w t show ?thesis by (simp only:)
qed


end
